theory Spec2Isabelle
  imports Main
begin

section \<open>The escrow contract \<open>ProjectEscrowImproved\<close>\<close>

text \<open>
  A shallow embedding of the Solidity contract \<open>ProjectEscrowImproved\<close> (compiler
  \<open>^0.8.19\<close>). Contract storage is a record that every operation takes and returns;
  a revert is the left summand of the result, so a failing call leaves no state behind.
  Every \<open>uint256\<close> is a natural number and every arithmetic operation is the checked
  one of Solidity 0.8: it panics instead of wrapping. Mappings are total functions with
  Solidity's default values. Each call also returns, in program order, the transfers it
  issued and the events it emitted; a transfer records the storage that the recipient
  would see if it looked at the contract while it is being paid.
\<close>

subsection \<open>Data\<close>

type_synonym address = nat

datatype ProjectStatus = CREATED | ACTIVE | COMPLETED | CANCELLED | DISPUTED

datatype MilestoneStatus = PENDING | SUBMITTED | APPROVED | REJECTED | M_DISPUTED

record Milestone =
  description :: string
  amount :: nat
  deadline :: nat
  m_status :: MilestoneStatus
  deliverableHash :: string
  submittedAt :: nat

record Project =
  p_id :: nat
  client :: address
  freelancer :: address
  title :: string
  descriptionHash :: string
  totalAmount :: nat
  p_status :: ProjectStatus
  p_createdAt :: nat
  acceptedAt :: nat
  fundsDeposited :: bool

record Dispute =
  projectId :: nat
  milestoneId :: nat
  initiator :: address
  reason :: string
  isResolved :: bool
  d_createdAt :: nat
  hasVoted :: "address \<Rightarrow> bool"
  votes :: "address \<Rightarrow> nat"
  voteCount :: nat

text \<open>
  Storage of the contract. \<open>owner\<close>, \<open>paused\<close> and \<open>entered\<close> are the state of the
  inherited OpenZeppelin contracts Ownable, Pausable and ReentrancyGuard; \<open>balance\<close> is
  \<open>address(this).balance\<close>.
\<close>

record state =
  projectCounter :: nat
  disputeCounter :: nat
  platformFeePercent :: nat
  projects :: "nat \<Rightarrow> Project"
  projectMilestones :: "nat \<Rightarrow> Milestone list"
  disputes :: "nat \<Rightarrow> Dispute"
  userProjects :: "address \<Rightarrow> nat list"
  userRatings :: "address \<Rightarrow> nat"
  userRatingCount :: "address \<Rightarrow> nat"
  isAdmin :: "address \<Rightarrow> bool"
  adminList :: "address list"
  owner :: address
  paused :: bool
  entered :: bool
  balance :: nat

text \<open>
  What a call sees of its transaction: \<open>msg.sender\<close>, \<open>msg.value\<close>,
  \<open>block.timestamp\<close>, and which addresses accept a plain transfer (a Solidity
  \<open>transfer\<close> reverts when the recipient refuses it). Only \<open>createProject\<close>
  is payable; every other operation reverts when it is sent value. A transfer forwards
  too little gas for the recipient to change the contract, so a transaction runs to its
  end on the storage it started from.
\<close>

record env =
  msg_sender :: address
  msg_value :: nat
  block_timestamp :: nat
  accepts :: "address \<Rightarrow> bool"

datatype event =
    ProjectCreated nat address nat
  | ProjectAccepted nat address
  | FundsDeposited nat nat
  | MilestoneSubmitted nat nat string
  | MilestoneApproved nat nat
  | MilestoneAutoApproved nat nat
  | PaymentReleased nat nat nat
  | DisputeRaised nat nat address
  | DisputeVoted nat address nat
  | DisputeResolved nat nat
  | UserRated address nat
  | AdminAdded address
  | AdminRemoved address
  | ContractPaused address
  | ContractUnpaused address
  | Paused address
  | Unpaused address
  | OwnershipTransferred address address

text \<open>
  \<open>Sent to amt seen\<close>: \<open>amt\<close> wei leave the contract for \<open>to\<close>, and \<open>seen\<close> is the
  storage at that moment.
\<close>

datatype effect = Sent address nat state | Emitted event

text \<open>
  Reverts carry the message of the \<open>require\<close> that failed, under the error kind of the
  specification's taxonomy. \<open>Panic\<close> is an arithmetic overflow, a division by zero or
  an index out of range; \<open>ReentrantCall\<close> is the revert of ReentrancyGuard;
  \<open>TransferFailed\<close> is a transfer that the recipient refused or the balance did not
  cover; \<open>NonPayable\<close> is the revert, without data, of a function that is not
  payable and is sent value.
\<close>

datatype error =
    ValidationError string
  | AuthorizationError string
  | StateError string
  | TimeoutError string
  | UnavailableError string
  | ReentrantCall
  | Panic
  | TransferFailed
  | NonPayable

type_synonym run = "state \<times> effect list"

type_synonym tx = "run \<Rightarrow> error + run"

subsection \<open>Checked arithmetic and sequencing\<close>

definition MAX_UINT256 :: nat where
  "MAX_UINT256 = 2 ^ 256 - 1"

definition checked_add :: "nat \<Rightarrow> nat \<Rightarrow> error + nat" where
  "checked_add a b = (if a + b \<le> MAX_UINT256 then Inr (a + b) else Inl Panic)"

definition checked_sub :: "nat \<Rightarrow> nat \<Rightarrow> error + nat" where
  "checked_sub a b = (if b \<le> a then Inr (a - b) else Inl Panic)"

definition checked_mul :: "nat \<Rightarrow> nat \<Rightarrow> error + nat" where
  "checked_mul a b = (if a * b \<le> MAX_UINT256 then Inr (a * b) else Inl Panic)"

definition checked_div :: "nat \<Rightarrow> nat \<Rightarrow> error + nat" where
  "checked_div a b = (if b = 0 then Inl Panic else Inr (a div b))"

definition and_then :: "error + 'a \<Rightarrow> ('a \<Rightarrow> error + 'b) \<Rightarrow> error + 'b" where
  "and_then r f = (case r of Inl e \<Rightarrow> Inl e | Inr x \<Rightarrow> f x)"

definition emit :: "event \<Rightarrow> run \<Rightarrow> run" where
  "emit ev r = (fst r, snd r @ [Emitted ev])"

definition store :: "(state \<Rightarrow> state) \<Rightarrow> run \<Rightarrow> run" where
  "store f r = (f (fst r), snd r)"

definition transfer :: "env \<Rightarrow> address \<Rightarrow> nat \<Rightarrow> tx" where
  "transfer e to amt r =
     (if balance (fst r) < amt \<or> \<not> accepts e to then Inl TransferFailed
      else (let s' = (fst r)\<lparr>balance := balance (fst r) - amt\<rparr>
            in Inr (s', snd r @ [Sent to amt s'])))"

definition set_project_status :: "nat \<Rightarrow> ProjectStatus \<Rightarrow> state \<Rightarrow> state" where
  "set_project_status pid st s =
     s\<lparr>projects := (projects s)(pid := (projects s pid)\<lparr>p_status := st\<rparr>)\<rparr>"

definition set_milestone_status :: "nat \<Rightarrow> nat \<Rightarrow> MilestoneStatus \<Rightarrow> state \<Rightarrow> state" where
  "set_milestone_status pid mid st s =
     s\<lparr>projectMilestones := (projectMilestones s)
         (pid := (projectMilestones s pid)[mid := (projectMilestones s pid ! mid)\<lparr>m_status := st\<rparr>])\<rparr>"

subsection \<open>Constants\<close>

definition DISPUTE_TIMEOUT :: nat where
  "DISPUTE_TIMEOUT = 3 * 86400"

definition AUTO_APPROVE_TIMEOUT :: nat where
  "AUTO_APPROVE_TIMEOUT = 7 * 86400"

definition REQUIRED_ADMIN_VOTES :: nat where
  "REQUIRED_ADMIN_VOTES = 2"

subsection \<open>Modifiers\<close>

text \<open>
  A modifier wraps the rest of the call; the modifiers of a function apply in the order
  the source lists them. The three inherited ones follow OpenZeppelin 4:
  \<open>onlyOwner\<close> compares the caller with the stored owner, \<open>whenNotPaused\<close> reads the
  pause flag, and \<open>nonReentrant\<close> refuses to start when the lock is taken, holds it
  while the body runs and releases it afterwards.
\<close>

text \<open>
  A function that is not declared payable checks the call value first, before any of
  its modifiers runs.
\<close>

definition nonPayable :: "env \<Rightarrow> tx \<Rightarrow> tx" where
  "nonPayable e body r = (if msg_value e \<noteq> 0 then Inl NonPayable else body r)"

definition onlyClient :: "env \<Rightarrow> nat \<Rightarrow> tx \<Rightarrow> tx" where
  "onlyClient e pid body r =
     (if msg_sender e \<noteq> client (projects (fst r) pid)
      then Inl (AuthorizationError ''Only client can call this'') else body r)"

definition onlyFreelancer :: "env \<Rightarrow> nat \<Rightarrow> tx \<Rightarrow> tx" where
  "onlyFreelancer e pid body r =
     (if msg_sender e \<noteq> freelancer (projects (fst r) pid)
      then Inl (AuthorizationError ''Only freelancer can call this'') else body r)"

definition onlyParticipant :: "env \<Rightarrow> nat \<Rightarrow> tx \<Rightarrow> tx" where
  "onlyParticipant e pid body r =
     (if \<not> (msg_sender e = client (projects (fst r) pid)
             \<or> msg_sender e = freelancer (projects (fst r) pid))
      then Inl (AuthorizationError ''Only project participants can call this'') else body r)"

definition projectExists :: "nat \<Rightarrow> tx \<Rightarrow> tx" where
  "projectExists pid body r =
     (if \<not> pid < projectCounter (fst r)
      then Inl (ValidationError ''Project does not exist'') else body r)"

definition onlyAdmin :: "env \<Rightarrow> tx \<Rightarrow> tx" where
  "onlyAdmin e body r =
     (if \<not> (isAdmin (fst r) (msg_sender e) \<or> msg_sender e = owner (fst r))
      then Inl (AuthorizationError ''Only admin can call this'') else body r)"

definition onlyOwner :: "env \<Rightarrow> tx \<Rightarrow> tx" where
  "onlyOwner e body r =
     (if owner (fst r) \<noteq> msg_sender e
      then Inl (AuthorizationError ''Ownable: caller is not the owner'') else body r)"

definition whenNotPaused :: "tx \<Rightarrow> tx" where
  "whenNotPaused body r =
     (if paused (fst r) then Inl (UnavailableError ''Pausable: paused'') else body r)"

definition whenPaused :: "tx \<Rightarrow> tx" where
  "whenPaused body r =
     (if \<not> paused (fst r) then Inl (StateError ''Pausable: not paused'') else body r)"

definition nonReentrant :: "tx \<Rightarrow> tx" where
  "nonReentrant body r =
     (if entered (fst r) then Inl ReentrantCall
      else and_then (body (store (\<lambda>s. s\<lparr>entered := True\<rparr>) r))
             (\<lambda>r'. Inr (store (\<lambda>s. s\<lparr>entered := False\<rparr>) r')))"

subsection \<open>Deployment and roster management\<close>

definition empty_project :: Project where
  "empty_project = \<lparr>p_id = 0, client = 0, freelancer = 0, title = [], descriptionHash = [],
     totalAmount = 0, p_status = CREATED, p_createdAt = 0, acceptedAt = 0,
     fundsDeposited = False\<rparr>"

definition empty_dispute :: Dispute where
  "empty_dispute = \<lparr>projectId = 0, milestoneId = 0, initiator = 0, reason = [],
     isResolved = False, d_createdAt = 0, hasVoted = (\<lambda>_. False), votes = (\<lambda>_. 0),
     voteCount = 0\<rparr>"

text \<open>The constructor: the deployer becomes the owner and the first admin.\<close>

definition constructor :: "address \<Rightarrow> state" where
  "constructor deployer =
     \<lparr>projectCounter = 0, disputeCounter = 0, platformFeePercent = 2,
      projects = (\<lambda>_. empty_project), projectMilestones = (\<lambda>_. []),
      disputes = (\<lambda>_. empty_dispute), userProjects = (\<lambda>_. []),
      userRatings = (\<lambda>_. 0), userRatingCount = (\<lambda>_. 0),
      isAdmin = (\<lambda>_. False)(deployer := True), adminList = [] @ [deployer],
      owner = deployer, paused = False, entered = False, balance = 0\<rparr>"

definition addAdmin :: "env \<Rightarrow> address \<Rightarrow> tx" where
  "addAdmin e a = nonPayable e (onlyOwner e (\<lambda>r.
     if \<not> \<not> isAdmin (fst r) a then Inl (StateError ''Already an admin'')
     else if \<not> a \<noteq> 0 then Inl (ValidationError ''Invalid address'')
     else Inr (emit (AdminAdded a)
            (store (\<lambda>s. s\<lparr>isAdmin := (isAdmin s)(a := True), adminList := adminList s @ [a]\<rparr>) r))))"

text \<open>
  The loop of \<open>removeAdmin\<close>: at the first index holding the address, overwrite it with
  the last element, pop, and stop.
\<close>

function removeFromList :: "nat \<Rightarrow> address \<Rightarrow> address list \<Rightarrow> address list" where
  "removeFromList i a xs =
     (if i < length xs
      then (if xs ! i = a then butlast (xs[i := xs ! (length xs - 1)])
            else removeFromList (i + 1) a xs)
      else xs)"
  by pat_completeness auto
termination
  by (relation "measure (\<lambda>(i, a, xs). length xs - i)") auto

declare removeFromList.simps [simp del]

definition removeAdmin :: "env \<Rightarrow> address \<Rightarrow> tx" where
  "removeAdmin e a = nonPayable e (onlyOwner e (\<lambda>r.
     if \<not> isAdmin (fst r) a then Inl (StateError ''Not an admin'')
     else if \<not> length (adminList (fst r)) > 1 then Inl (StateError ''Cannot remove last admin'')
     else Inr (emit (AdminRemoved a)
            (store (\<lambda>s. s\<lparr>isAdmin := (isAdmin s)(a := False),
                           adminList := removeFromList 0 a (adminList s)\<rparr>) r))))"

definition getAdminList :: "state \<Rightarrow> address list" where
  "getAdminList s = adminList s"

definition pause :: "env \<Rightarrow> tx" where
  "pause e = nonPayable e (onlyOwner e (\<lambda>r.
     and_then (whenNotPaused (\<lambda>r1. Inr (emit (Paused (msg_sender e))
                                (store (\<lambda>s. s\<lparr>paused := True\<rparr>) r1))) r)
       (\<lambda>r2. Inr (emit (ContractPaused (msg_sender e)) r2))))"

definition unpause :: "env \<Rightarrow> tx" where
  "unpause e = nonPayable e (onlyOwner e (\<lambda>r.
     and_then (whenPaused (\<lambda>r1. Inr (emit (Unpaused (msg_sender e))
                             (store (\<lambda>s. s\<lparr>paused := False\<rparr>) r1))) r)
       (\<lambda>r2. Inr (emit (ContractUnpaused (msg_sender e)) r2))))"

definition setPlatformFee :: "env \<Rightarrow> nat \<Rightarrow> tx" where
  "setPlatformFee e feePercent = nonPayable e (onlyOwner e (\<lambda>r.
     if \<not> feePercent \<le> 10 then Inl (ValidationError ''Fee cannot exceed 10%'')
     else Inr (store (\<lambda>s. s\<lparr>platformFeePercent := feePercent\<rparr>) r)))"

text \<open>The two owner operations that the contract inherits from Ownable.\<close>

definition transferOwnership :: "env \<Rightarrow> address \<Rightarrow> tx" where
  "transferOwnership e newOwner = nonPayable e (onlyOwner e (\<lambda>r.
     if \<not> newOwner \<noteq> 0 then Inl (ValidationError ''Ownable: new owner is the zero address'')
     else Inr (emit (OwnershipTransferred (owner (fst r)) newOwner)
            (store (\<lambda>s. s\<lparr>owner := newOwner\<rparr>) r))))"

definition renounceOwnership :: "env \<Rightarrow> tx" where
  "renounceOwnership e = nonPayable e (onlyOwner e (\<lambda>r.
     Inr (emit (OwnershipTransferred (owner (fst r)) 0) (store (\<lambda>s. s\<lparr>owner := 0\<rparr>) r))))"

subsection \<open>Projects and milestones\<close>

text \<open>
  The first loop of \<open>createProject\<close>: every amount positive, every deadline in the
  future, and the running total, which panics on overflow.
\<close>

fun sumAmounts :: "nat \<Rightarrow> nat list \<Rightarrow> nat list \<Rightarrow> nat \<Rightarrow> error + nat" where
  "sumAmounts now [] ds tot = Inr tot"
| "sumAmounts now (a # as) [] tot =
     (if \<not> a > 0 then Inl (ValidationError ''Milestone amount must be > 0'') else Inl Panic)"
| "sumAmounts now (a # as) (d # ds) tot =
     (if \<not> a > 0 then Inl (ValidationError ''Milestone amount must be > 0'')
      else if \<not> d > now then Inl (ValidationError ''Deadline must be in future'')
      else and_then (checked_add tot a) (sumAmounts now as ds))"

text \<open>The second loop: one PENDING milestone pushed per description.\<close>

fun pushMilestones :: "string list \<Rightarrow> nat list \<Rightarrow> nat list \<Rightarrow> Milestone list \<Rightarrow> error + Milestone list" where
  "pushMilestones [] as ds ms = Inr ms"
| "pushMilestones (x # xs) (a # as) (d # ds) ms =
     pushMilestones xs as ds
       (ms @ [\<lparr>description = x, amount = a, deadline = d, m_status = PENDING,
               deliverableHash = [], submittedAt = 0\<rparr>])"
| "pushMilestones (x # xs) as ds ms = Inl Panic"

text \<open>
  \<open>createProject\<close> is payable: the deposit joins the balance before the body runs. Its
  return value is the project counter it found.
\<close>

definition createProject ::
  "env \<Rightarrow> string \<Rightarrow> string \<Rightarrow> string list \<Rightarrow> nat list \<Rightarrow> nat list \<Rightarrow> tx" where
  "createProject e ttl dh descs amounts deadlines r0 =
     whenNotPaused (\<lambda>r.
       if \<not> length descs > 0 then Inl (ValidationError ''At least one milestone required'')
       else if \<not> (length descs = length amounts \<and> length amounts = length deadlines)
         then Inl (ValidationError ''Milestone arrays must be same length'')
       else and_then (sumAmounts (block_timestamp e) amounts deadlines 0) (\<lambda>tot.
         if \<not> msg_value e \<ge> tot then Inl (ValidationError ''Insufficient funds deposited'')
         else and_then (checked_add (projectCounter (fst r)) 1) (\<lambda>nxt.
           let pid = projectCounter (fst r);
               r1 = store (\<lambda>s. s\<lparr>projectCounter := nxt\<rparr>) r;
               r2 = store (\<lambda>s. s\<lparr>projects := (projects s)(pid := (projects s pid)
                       \<lparr>p_id := pid, client := msg_sender e, title := ttl,
                        descriptionHash := dh, totalAmount := tot, p_status := CREATED,
                        p_createdAt := block_timestamp e, fundsDeposited := True\<rparr>)\<rparr>) r1
           in and_then (pushMilestones descs amounts deadlines (projectMilestones (fst r2) pid))
             (\<lambda>ms.
               let r3 = store (\<lambda>s. s\<lparr>projectMilestones := (projectMilestones s)(pid := ms)\<rparr>) r2;
                   r4 = store (\<lambda>s. s\<lparr>userProjects := (userProjects s)
                          (msg_sender e := userProjects s (msg_sender e) @ [pid])\<rparr>) r3
               in and_then (if msg_value e > tot
                            then transfer e (msg_sender e) (msg_value e - tot) r4
                            else Inr r4)
                    (\<lambda>r5. Inr (emit (FundsDeposited pid tot)
                                 (emit (ProjectCreated pid (msg_sender e) tot) r5)))))))
       (store (\<lambda>s. s\<lparr>balance := balance s + msg_value e\<rparr>) r0)"

definition acceptProject :: "env \<Rightarrow> nat \<Rightarrow> tx" where
  "acceptProject e pid = nonPayable e (projectExists pid (whenNotPaused (\<lambda>r.
     if p_status (projects (fst r) pid) \<noteq> CREATED then Inl (StateError ''Project not available'')
     else if freelancer (projects (fst r) pid) \<noteq> 0
       then Inl (StateError ''Project already accepted'')
     else if \<not> msg_sender e \<noteq> client (projects (fst r) pid)
       then Inl (AuthorizationError ''Client cannot accept own project'')
     else Inr (emit (ProjectAccepted pid (msg_sender e))
            (store (\<lambda>s. s\<lparr>userProjects := (userProjects s)
                            (msg_sender e := userProjects s (msg_sender e) @ [pid])\<rparr>)
              (store (\<lambda>s. s\<lparr>projects := (projects s)(pid := (projects s pid)
                              \<lparr>freelancer := msg_sender e, p_status := ACTIVE,
                               acceptedAt := block_timestamp e\<rparr>)\<rparr>) r))))))"

definition submitMilestone :: "env \<Rightarrow> nat \<Rightarrow> nat \<Rightarrow> string \<Rightarrow> tx" where
  "submitMilestone e pid mid dh =
     nonPayable e (projectExists pid (onlyFreelancer e pid (whenNotPaused (\<lambda>r.
     if p_status (projects (fst r) pid) \<noteq> ACTIVE then Inl (StateError ''Project not active'')
     else if \<not> mid < length (projectMilestones (fst r) pid)
       then Inl (ValidationError ''Invalid milestone'')
     else if m_status (projectMilestones (fst r) pid ! mid) \<noteq> PENDING
       then Inl (StateError ''Milestone not pending'')
     else if \<not> length dh > 0 then Inl (ValidationError ''Deliverable hash required'')
     else Inr (emit (MilestoneSubmitted pid mid dh)
            (store (\<lambda>s. s\<lparr>projectMilestones := (projectMilestones s)
                (pid := (projectMilestones s pid)[mid := (projectMilestones s pid ! mid)
                   \<lparr>m_status := SUBMITTED, deliverableHash := dh,
                    submittedAt := block_timestamp e\<rparr>])\<rparr>) r))))))"

text \<open>The loop of \<open>allMilestonesApproved\<close>, with its early return.\<close>

fun allApproved :: "Milestone list \<Rightarrow> bool" where
  "allApproved [] = True"
| "allApproved (m # ms) = (if m_status m \<noteq> APPROVED then False else allApproved ms)"

definition allMilestonesApproved :: "state \<Rightarrow> nat \<Rightarrow> bool" where
  "allMilestonesApproved s pid = allApproved (projectMilestones s pid)"

text \<open>
  \<open>_releaseMilestonePayment\<close>; the storage references \<open>project\<close> and \<open>milestone\<close> of
  the source are \<open>projects[pid]\<close> and \<open>projectMilestones[pid][mid]\<close>.
\<close>

definition releaseMilestonePayment :: "env \<Rightarrow> nat \<Rightarrow> nat \<Rightarrow> tx" where
  "releaseMilestonePayment e pid mid r =
     (let r1 = store (set_milestone_status pid mid APPROVED) r;
          m = projectMilestones (fst r1) pid ! mid
      in and_then (checked_mul (amount m) (platformFeePercent (fst r1))) (\<lambda>scaled.
         and_then (checked_div scaled 100) (\<lambda>platformFee.
         and_then (checked_sub (amount m) platformFee) (\<lambda>freelancerAmount.
         and_then (transfer e (freelancer (projects (fst r1) pid)) freelancerAmount r1) (\<lambda>r2.
         and_then (transfer e (owner (fst r2)) platformFee r2) (\<lambda>r3.
           let r4 = emit (PaymentReleased pid mid freelancerAmount)
                      (emit (MilestoneApproved pid mid) r3)
           in Inr (if allMilestonesApproved (fst r4) pid
                   then store (set_project_status pid COMPLETED) r4 else r4)))))))"

definition approveMilestone :: "env \<Rightarrow> nat \<Rightarrow> nat \<Rightarrow> tx" where
  "approveMilestone e pid mid =
     nonPayable e (projectExists pid (onlyClient e pid (nonReentrant (whenNotPaused (\<lambda>r.
       if p_status (projects (fst r) pid) \<noteq> ACTIVE then Inl (StateError ''Project not active'')
       else if \<not> mid < length (projectMilestones (fst r) pid)
         then Inl (ValidationError ''Invalid milestone'')
       else if m_status (projectMilestones (fst r) pid ! mid) \<noteq> SUBMITTED
         then Inl (StateError ''Milestone not submitted'')
       else releaseMilestonePayment e pid mid r)))))"

definition autoApproveMilestone :: "env \<Rightarrow> nat \<Rightarrow> nat \<Rightarrow> tx" where
  "autoApproveMilestone e pid mid =
     nonPayable e (projectExists pid (nonReentrant (whenNotPaused (\<lambda>r.
       if p_status (projects (fst r) pid) \<noteq> ACTIVE then Inl (StateError ''Project not active'')
       else if \<not> mid < length (projectMilestones (fst r) pid)
         then Inl (ValidationError ''Invalid milestone'')
       else if m_status (projectMilestones (fst r) pid ! mid) \<noteq> SUBMITTED
         then Inl (StateError ''Milestone not submitted'')
       else and_then (checked_add (submittedAt (projectMilestones (fst r) pid ! mid))
                        AUTO_APPROVE_TIMEOUT) (\<lambda>due.
         if \<not> block_timestamp e \<ge> due
         then Inl (TimeoutError ''Auto-approval timeout not reached'')
         else releaseMilestonePayment e pid mid (emit (MilestoneAutoApproved pid mid) r))))))"

subsection \<open>Disputes\<close>

definition raiseDispute :: "env \<Rightarrow> nat \<Rightarrow> nat \<Rightarrow> string \<Rightarrow> tx" where
  "raiseDispute e pid mid rsn =
     nonPayable e (projectExists pid (onlyParticipant e pid (whenNotPaused (\<lambda>r.
       if p_status (projects (fst r) pid) \<noteq> ACTIVE then Inl (StateError ''Project not active'')
       else if \<not> mid < length (projectMilestones (fst r) pid)
         then Inl (ValidationError ''Invalid milestone'')
       else if m_status (projectMilestones (fst r) pid ! mid) \<noteq> SUBMITTED
         then Inl (StateError ''Can only dispute submitted milestones'')
       else and_then (checked_add (submittedAt (projectMilestones (fst r) pid ! mid))
                        DISPUTE_TIMEOUT) (\<lambda>limit.
         if \<not> block_timestamp e \<le> limit then Inl (TimeoutError ''Dispute period expired'')
         else and_then (checked_add (disputeCounter (fst r)) 1) (\<lambda>nxt.
           let did = disputeCounter (fst r);
               r1 = store (\<lambda>s. s\<lparr>disputeCounter := nxt\<rparr>) r;
               r2 = store (\<lambda>s. s\<lparr>disputes := (disputes s)(did := (disputes s did)
                       \<lparr>projectId := pid, milestoneId := mid, initiator := msg_sender e,
                        reason := rsn, isResolved := False,
                        d_createdAt := block_timestamp e, voteCount := 0\<rparr>)\<rparr>) r1;
               r3 = store (set_project_status pid DISPUTED) r2;
               r4 = store (set_milestone_status pid mid M_DISPUTED) r3
           in Inr (emit (DisputeRaised did pid (msg_sender e)) r4)))))))"

text \<open>
  The loop of \<open>_executeDisputeResolution\<close> over the admin list: the sum of the
  percentages of the listed admins who voted, and how many they are.
\<close>

fun tallyVotes :: "address list \<Rightarrow> Dispute \<Rightarrow> nat \<Rightarrow> nat \<Rightarrow> error + nat \<times> nat" where
  "tallyVotes [] d totalPercentage validVotes = Inr (totalPercentage, validVotes)"
| "tallyVotes (a # as) d totalPercentage validVotes =
     (if hasVoted d a
      then and_then (checked_add totalPercentage (votes d a)) (\<lambda>t.
           and_then (checked_add validVotes 1) (\<lambda>v. tallyVotes as d t v))
      else tallyVotes as d totalPercentage validVotes)"

definition executeDisputeResolution :: "env \<Rightarrow> nat \<Rightarrow> tx" where
  "executeDisputeResolution e did = nonReentrant (\<lambda>r.
     if \<not> \<not> isResolved (disputes (fst r) did) then Inl (StateError ''Already resolved'')
     else and_then (tallyVotes (adminList (fst r)) (disputes (fst r) did) 0 0)
       (\<lambda>(totalPercentage, validVotes).
       and_then (checked_div totalPercentage validVotes) (\<lambda>avgPercentage.
         let pid = projectId (disputes (fst r) did);
             mid = milestoneId (disputes (fst r) did)
         in if \<not> mid < length (projectMilestones (fst r) pid) then Inl Panic
            else let m = projectMilestones (fst r) pid ! mid
              in and_then (checked_mul (amount m) avgPercentage) (\<lambda>scaled.
                 and_then (checked_div scaled 100) (\<lambda>freelancerAmount.
                 and_then (checked_sub (amount m) freelancerAmount) (\<lambda>clientAmount.
                 and_then (if freelancerAmount > 0
                           then transfer e (freelancer (projects (fst r) pid)) freelancerAmount r
                           else Inr r) (\<lambda>r1.
                 and_then (if clientAmount > 0
                           then transfer e (client (projects (fst r1) pid)) clientAmount r1
                           else Inr r1) (\<lambda>r2.
                   let r3 = store (\<lambda>s. s\<lparr>disputes := (disputes s)
                                (did := (disputes s did)\<lparr>isResolved := True\<rparr>)\<rparr>) r2;
                       r4 = store (set_milestone_status pid mid APPROVED) r3;
                       r5 = store (set_project_status pid ACTIVE) r4
                   in Inr (emit (DisputeResolved did avgPercentage) r5)))))))))"

definition voteOnDispute :: "env \<Rightarrow> nat \<Rightarrow> nat \<Rightarrow> tx" where
  "voteOnDispute e did percentageToFreelancer = nonPayable e (onlyAdmin e (whenNotPaused (\<lambda>r.
     if \<not> did < disputeCounter (fst r) then Inl (ValidationError ''Dispute does not exist'')
     else if \<not> \<not> isResolved (disputes (fst r) did)
       then Inl (StateError ''Dispute already resolved'')
     else if \<not> percentageToFreelancer \<le> 100 then Inl (ValidationError ''Invalid percentage'')
     else if \<not> \<not> hasVoted (disputes (fst r) did) (msg_sender e)
       then Inl (StateError ''Already voted'')
     else and_then (checked_add (voteCount (disputes (fst r) did)) 1) (\<lambda>n.
       let r1 = store (\<lambda>s. s\<lparr>disputes := (disputes s)(did := (disputes s did)
                    \<lparr>hasVoted := (hasVoted (disputes s did))(msg_sender e := True),
                     votes := (votes (disputes s did))(msg_sender e := percentageToFreelancer),
                     voteCount := n\<rparr>)\<rparr>) r;
           r2 = emit (DisputeVoted did (msg_sender e) percentageToFreelancer) r1
       in if voteCount (disputes (fst r2) did) \<ge> REQUIRED_ADMIN_VOTES
          then executeDisputeResolution e did r2 else Inr r2))))"

subsection \<open>Ratings, cancellation, fee\<close>

definition rateUser :: "env \<Rightarrow> address \<Rightarrow> nat \<Rightarrow> tx" where
  "rateUser e u rating = nonPayable e (whenNotPaused (\<lambda>r.
     if \<not> (rating \<ge> 1 \<and> rating \<le> 5) then Inl (ValidationError ''Rating must be between 1 and 5'')
     else and_then (checked_add (userRatings (fst r) u) rating) (\<lambda>sum.
          and_then (checked_add (userRatingCount (fst r) u) 1) (\<lambda>cnt.
            Inr (emit (UserRated u rating)
              (store (\<lambda>s. s\<lparr>userRatings := (userRatings s)(u := sum),
                             userRatingCount := (userRatingCount s)(u := cnt)\<rparr>) r))))))"

definition cancelProject :: "env \<Rightarrow> nat \<Rightarrow> tx" where
  "cancelProject e pid =
     nonPayable e (projectExists pid (onlyClient e pid (nonReentrant (whenNotPaused (\<lambda>r.
       if p_status (projects (fst r) pid) \<noteq> CREATED
         then Inl (StateError ''Can only cancel created projects'')
       else if freelancer (projects (fst r) pid) \<noteq> 0
         then Inl (StateError ''Cannot cancel accepted project'')
       else let r1 = store (set_project_status pid CANCELLED) r
            in transfer e (client (projects (fst r1) pid)) (totalAmount (projects (fst r1) pid)) r1)))))"

subsection \<open>Views\<close>

definition getUserRating :: "state \<Rightarrow> address \<Rightarrow> error + nat" where
  "getUserRating s u =
     (if userRatingCount s u = 0 then Inr 0
      else checked_div (userRatings s u) (userRatingCount s u))"

definition canAutoApprove :: "env \<Rightarrow> state \<Rightarrow> nat \<Rightarrow> nat \<Rightarrow> error + bool" where
  "canAutoApprove e s pid mid =
     (if pid \<ge> projectCounter s then Inr False
      else if mid \<ge> length (projectMilestones s pid) then Inr False
      else if m_status (projectMilestones s pid ! mid) \<noteq> SUBMITTED then Inr False
      else and_then (checked_add (submittedAt (projectMilestones s pid ! mid)) AUTO_APPROVE_TIMEOUT)
             (\<lambda>due. Inr (block_timestamp e \<ge> due)))"

subsection \<open>Transactions\<close>

text \<open>
  The externally callable operations that change storage. A transaction runs one of them
  to completion from an empty log; the contract is reached from its constructor by
  successful transactions.
\<close>

datatype call =
    AddAdmin address
  | RemoveAdmin address
  | Pause
  | Unpause
  | CreateProject string string "string list" "nat list" "nat list"
  | AcceptProject nat
  | SubmitMilestone nat nat string
  | ApproveMilestone nat nat
  | AutoApproveMilestone nat nat
  | RaiseDispute nat nat string
  | VoteOnDispute nat nat
  | RateUser address nat
  | CancelProject nat
  | SetPlatformFee nat
  | TransferOwnership address
  | RenounceOwnership

fun exec :: "env \<Rightarrow> call \<Rightarrow> state \<Rightarrow> error + run" where
  "exec e (AddAdmin a) s = addAdmin e a (s, [])"
| "exec e (RemoveAdmin a) s = removeAdmin e a (s, [])"
| "exec e Pause s = pause e (s, [])"
| "exec e Unpause s = unpause e (s, [])"
| "exec e (CreateProject ttl dh descs amounts deadlines) s =
     createProject e ttl dh descs amounts deadlines (s, [])"
| "exec e (AcceptProject pid) s = acceptProject e pid (s, [])"
| "exec e (SubmitMilestone pid mid dh) s = submitMilestone e pid mid dh (s, [])"
| "exec e (ApproveMilestone pid mid) s = approveMilestone e pid mid (s, [])"
| "exec e (AutoApproveMilestone pid mid) s = autoApproveMilestone e pid mid (s, [])"
| "exec e (RaiseDispute pid mid rsn) s = raiseDispute e pid mid rsn (s, [])"
| "exec e (VoteOnDispute did pct) s = voteOnDispute e did pct (s, [])"
| "exec e (RateUser u rating) s = rateUser e u rating (s, [])"
| "exec e (CancelProject pid) s = cancelProject e pid (s, [])"
| "exec e (SetPlatformFee pct) s = setPlatformFee e pct (s, [])"
| "exec e (TransferOwnership a) s = transferOwnership e a (s, [])"
| "exec e RenounceOwnership s = renounceOwnership e (s, [])"

inductive reachable :: "state \<Rightarrow> bool" where
  deployed: "reachable (constructor deployer)"
| called: "reachable s \<Longrightarrow> exec e c s = Inr (s', log) \<Longrightarrow> reachable s'"

subsection \<open>Observing a call\<close>

text \<open>The payments of a log, in order, and the storage visible at each of them.\<close>

fun transfers :: "effect list \<Rightarrow> (address \<times> nat) list" where
  "transfers [] = []"
| "transfers (Sent to amt seen # log) = (to, amt) # transfers log"
| "transfers (Emitted ev # log) = transfers log"

fun snapshots :: "effect list \<Rightarrow> state list" where
  "snapshots [] = []"
| "snapshots (Sent to amt seen # log) = seen # snapshots log"
| "snapshots (Emitted ev # log) = snapshots log"

fun events :: "effect list \<Rightarrow> event list" where
  "events [] = []"
| "events (Sent to amt seen # log) = events log"
| "events (Emitted ev # log) = ev # events log"

text \<open>
  A sequence of transactions, each with its own sender, value and time; the result is
  the final storage with the log of the last transaction.
\<close>

fun run_calls :: "(env \<times> call) list \<Rightarrow> run \<Rightarrow> error + run" where
  "run_calls [] r = Inr r"
| "run_calls (x # xs) r = and_then (exec (fst x) (snd x) (fst r)) (run_calls xs)"

definition view :: "('a \<Rightarrow> 'b) \<Rightarrow> error + 'a \<Rightarrow> error + 'b" where
  "view f r = (case r of Inl e \<Rightarrow> Inl e | Inr x \<Rightarrow> Inr (f x))"

definition at :: "address \<Rightarrow> nat \<Rightarrow> env" where
  "at who time =
     \<lparr>msg_sender = who, msg_value = 0, block_timestamp = time, accepts = (\<lambda>_. True)\<rparr>"

definition paying :: "address \<Rightarrow> nat \<Rightarrow> nat \<Rightarrow> env" where
  "paying who time wei =
     \<lparr>msg_sender = who, msg_value = wei, block_timestamp = time, accepts = (\<lambda>_. True)\<rparr>"

text \<open>
  The scenario of the repository's tests, with small numbers: address 1 deploys, 2 is the
  client, 3 the freelancer, 4 a second admin. One project with one milestone of 100 wei,
  accepted at time 1 and submitted at time 10.
\<close>

definition submitted_script :: "(env \<times> call) list" where
  "submitted_script =
     [(at 1 0, AddAdmin 4),
      (paying 2 0 100, CreateProject ''Site'' ''Qm1'' [''Design''] [100] [1000]),
      (at 3 1, AcceptProject 0),
      (at 3 10, SubmitMilestone 0 0 ''QmD'')]"

text \<open>The client disputes the milestone and the first admin votes 60 percent.\<close>

definition disputed_script :: "(env \<times> call) list" where
  "disputed_script =
     submitted_script @ [(at 2 20, RaiseDispute 0 0 ''Work incomplete''),
                         (at 1 30, VoteOnDispute 0 60)]"

subsection \<open>The admin roster\<close>

text \<open>
  The roster is well formed when the list is not empty, lists nobody twice, and lists
  exactly the addresses whose admin flag is set.
\<close>

definition roster_ok :: "state \<Rightarrow> bool" where
  "roster_ok s \<longleftrightarrow>
     adminList s \<noteq> [] \<and> distinct (adminList s) \<and> {a. isAdmin s a} = set (adminList s)"

text \<open>
  What a field of the storage, or a reading of the last log, is after a sequence of
  transactions on a fresh deployment.
\<close>

definition observe :: "(state \<Rightarrow> 'a) \<Rightarrow> (env \<times> call) list \<Rightarrow> address \<Rightarrow> error + 'a" where
  "observe f script deployer = view (\<lambda>r. f (fst r)) (run_calls script (constructor deployer, []))"

definition observe_log ::
  "(effect list \<Rightarrow> 'a) \<Rightarrow> (env \<times> call) list \<Rightarrow> address \<Rightarrow> error + 'a" where
  "observe_log f script deployer =
     view (\<lambda>r. f (snd r)) (run_calls script (constructor deployer, []))"

subsection \<open>Dispute resolution, in the words of the specification\<close>

text \<open>
  The average the specification describes: the percentages of the roster members who
  voted, summed in roster order and divided by their number, rounded down.
\<close>

definition avgPercentage :: "address list \<Rightarrow> (address \<Rightarrow> bool) \<Rightarrow> (address \<Rightarrow> nat) \<Rightarrow> nat" where
  "avgPercentage roster voted pct =
     sum_list (map pct (filter voted roster)) div length (filter voted roster)"

subsection \<open>The pause gate\<close>

text \<open>The operations whose modifier list contains \<open>whenNotPaused\<close>.\<close>

fun pause_gated :: "call \<Rightarrow> bool" where
  "pause_gated (CreateProject ttl dh descs amounts deadlines) = True"
| "pause_gated (AcceptProject pid) = True"
| "pause_gated (SubmitMilestone pid mid dh) = True"
| "pause_gated (ApproveMilestone pid mid) = True"
| "pause_gated (AutoApproveMilestone pid mid) = True"
| "pause_gated (RaiseDispute pid mid rsn) = True"
| "pause_gated (VoteOnDispute did pct) = True"
| "pause_gated (RateUser u rating) = True"
| "pause_gated (CancelProject pid) = True"
| "pause_gated c = False"

text \<open>
  The checks that run before \<open>whenNotPaused\<close>, for each gated operation, in the
  order in which they run: the refusal of value by an operation that is not payable,
  and then the modifiers that the source lists before \<open>whenNotPaused\<close>. They run
  first, so their revert wins over the pause gate's. \<open>createProject\<close> is payable and
  lists \<open>whenNotPaused\<close> first. For the owner's operations, \<open>pause\<close> among them, the
  checks are the refusal of value and \<open>onlyOwner\<close>. Each check is paired with its
  revert; \<open>earlier_check_error\<close> is the revert of the first check that fails, if one
  fails.
\<close>

fun first_error :: "(bool \<times> error) list \<Rightarrow> error option" where
  "first_error [] = None"
| "first_error (c # cs) = (if fst c then first_error cs else Some (snd c))"

fun earlier_check_error :: "env \<Rightarrow> call \<Rightarrow> state \<Rightarrow> error option" where
  "earlier_check_error e (CreateProject ttl dh descs amounts deadlines) s = None"
| "earlier_check_error e (AcceptProject pid) s =
     first_error [(msg_value e = 0, NonPayable),
                  (pid < projectCounter s, ValidationError ''Project does not exist'')]"
| "earlier_check_error e (SubmitMilestone pid mid dh) s =
     first_error [(msg_value e = 0, NonPayable),
                  (pid < projectCounter s, ValidationError ''Project does not exist''),
                  (msg_sender e = freelancer (projects s pid),
                   AuthorizationError ''Only freelancer can call this'')]"
| "earlier_check_error e (ApproveMilestone pid mid) s =
     first_error [(msg_value e = 0, NonPayable),
                  (pid < projectCounter s, ValidationError ''Project does not exist''),
                  (msg_sender e = client (projects s pid),
                   AuthorizationError ''Only client can call this''),
                  (\<not> entered s, ReentrantCall)]"
| "earlier_check_error e (AutoApproveMilestone pid mid) s =
     first_error [(msg_value e = 0, NonPayable),
                  (pid < projectCounter s, ValidationError ''Project does not exist''),
                  (\<not> entered s, ReentrantCall)]"
| "earlier_check_error e (RaiseDispute pid mid rsn) s =
     first_error [(msg_value e = 0, NonPayable),
                  (pid < projectCounter s, ValidationError ''Project does not exist''),
                  (msg_sender e = client (projects s pid)
                     \<or> msg_sender e = freelancer (projects s pid),
                   AuthorizationError ''Only project participants can call this'')]"
| "earlier_check_error e (VoteOnDispute did pct) s =
     first_error [(msg_value e = 0, NonPayable),
                  (isAdmin s (msg_sender e) \<or> msg_sender e = owner s,
                   AuthorizationError ''Only admin can call this'')]"
| "earlier_check_error e (RateUser u rating) s = first_error [(msg_value e = 0, NonPayable)]"
| "earlier_check_error e (CancelProject pid) s =
     first_error [(msg_value e = 0, NonPayable),
                  (pid < projectCounter s, ValidationError ''Project does not exist''),
                  (msg_sender e = client (projects s pid),
                   AuthorizationError ''Only client can call this''),
                  (\<not> entered s, ReentrantCall)]"
| "earlier_check_error e c s =
     first_error [(msg_value e = 0, NonPayable),
                  (owner s = msg_sender e,
                   AuthorizationError ''Ownable: caller is not the owner'')]"

text \<open>
  The operations that only the owner may call and that never look at the pause flag.
\<close>

fun owner_ungated :: "call \<Rightarrow> bool" where
  "owner_ungated Unpause = True"
| "owner_ungated (AddAdmin a) = True"
| "owner_ungated (RemoveAdmin a) = True"
| "owner_ungated (SetPlatformFee pct) = True"
| "owner_ungated (TransferOwnership a) = True"
| "owner_ungated RenounceOwnership = True"
| "owner_ungated c = False"

subsection \<open>Invariants of the reachable states\<close>

text \<open>
  An open dispute pins its project and its milestone in the DISPUTED status, and a
  project has at most one open dispute. Besides: no transaction ends with the
  re-entrancy lock taken, the fee never exceeds 10 percent, and the milestone lists of
  the project ids not yet assigned are empty.
\<close>

definition open_dispute :: "state \<Rightarrow> nat \<Rightarrow> bool" where
  "open_dispute s d \<longleftrightarrow> d < disputeCounter s \<and> \<not> isResolved (disputes s d)"

definition dispute_pins :: "state \<Rightarrow> nat \<Rightarrow> bool" where
  "dispute_pins s d \<longleftrightarrow>
     p_status (projects s (projectId (disputes s d))) = DISPUTED
     \<and> milestoneId (disputes s d) < length (projectMilestones s (projectId (disputes s d)))
     \<and> m_status (projectMilestones s (projectId (disputes s d)) ! milestoneId (disputes s d))
         = M_DISPUTED"

definition inv :: "state \<Rightarrow> bool" where
  "inv s \<longleftrightarrow>
     \<not> entered s \<and> platformFeePercent s \<le> 10
     \<and> (\<forall>pid. projectCounter s \<le> pid \<longrightarrow> projectMilestones s pid = [])
     \<and> (\<forall>d. open_dispute s d \<longrightarrow> dispute_pins s d)
     \<and> (\<forall>d d'. open_dispute s d \<and> open_dispute s d'
            \<and> projectId (disputes s d) = projectId (disputes s d') \<longrightarrow> d = d')"

subsection \<open>The milestone status machine\<close>

text \<open>
  One step of the status machine of the specification:
  PENDING to SUBMITTED, SUBMITTED to APPROVED or to DISPUTED, DISPUTED to APPROVED, or no
  change. Nothing leaves APPROVED, and nothing reaches REJECTED.
\<close>

fun status_step :: "MilestoneStatus \<Rightarrow> MilestoneStatus \<Rightarrow> bool" where
  "status_step PENDING SUBMITTED = True"
| "status_step SUBMITTED APPROVED = True"
| "status_step SUBMITTED M_DISPUTED = True"
| "status_step M_DISPUTED APPROVED = True"
| "status_step a b = (a = b)"

text \<open>
  A milestone list advances to another when no milestone disappears, every milestone
  makes a step of the machine, and every new milestone starts PENDING.
\<close>

definition advances :: "Milestone list \<Rightarrow> Milestone list \<Rightarrow> bool" where
  "advances ms ms' \<longleftrightarrow>
     length ms \<le> length ms'
     \<and> (\<forall>i. i < length ms \<longrightarrow> status_step (m_status (ms ! i)) (m_status (ms' ! i)))
     \<and> (\<forall>i. length ms \<le> i \<and> i < length ms' \<longrightarrow> m_status (ms' ! i) = PENDING)"

text \<open>The milestones that \<open>createProject\<close> is specified to create.\<close>

definition pending_milestones :: "string list \<Rightarrow> nat list \<Rightarrow> nat list \<Rightarrow> Milestone list" where
  "pending_milestones descs amounts deadlines =
     map (\<lambda>(d, a, t). \<lparr>description = d, amount = a, deadline = t, m_status = PENDING,
                        deliverableHash = [], submittedAt = 0\<rparr>)
       (zip descs (zip amounts deadlines))"

text \<open>
  The ways to ask for the release of milestone \<open>mid\<close> of project \<open>pid\<close>: approve it,
  auto-approve it, dispute it, or vote on a recorded dispute about it.
\<close>

fun releases :: "state \<Rightarrow> call \<Rightarrow> nat \<Rightarrow> nat \<Rightarrow> bool" where
  "releases s (ApproveMilestone p m) pid mid = (p = pid \<and> m = mid)"
| "releases s (AutoApproveMilestone p m) pid mid = (p = pid \<and> m = mid)"
| "releases s (RaiseDispute p m rsn) pid mid = (p = pid \<and> m = mid)"
| "releases s (VoteOnDispute did pct) pid mid =
     (did < disputeCounter s \<and> projectId (disputes s did) = pid
      \<and> milestoneId (disputes s did) = mid)"
| "releases s c pid mid = False"

subsection \<open>Project creation, in the words of the specification\<close>

text \<open>
  The preconditions that the specification lists for \<open>createProject\<close>: at least one
  milestone, three arrays of one length, every amount positive, every deadline after the
  current time, and a deposit that covers the sum of the amounts.
\<close>

definition create_preconditions :: "env \<Rightarrow> string list \<Rightarrow> nat list \<Rightarrow> nat list \<Rightarrow> bool" where
  "create_preconditions e descs amounts deadlines \<longleftrightarrow>
     descs \<noteq> [] \<and> length descs = length amounts \<and> length amounts = length deadlines
     \<and> list_all (\<lambda>a. 0 < a) amounts \<and> list_all (\<lambda>t. block_timestamp e < t) deadlines
     \<and> sum_list amounts \<le> msg_value e"

subsection \<open>Auto-approval against manual approval\<close>

text \<open>The outcome of a call with one more event at the head of its log.\<close>

definition announced :: "event \<Rightarrow> error + run \<Rightarrow> error + run" where
  "announced ev r = (case r of Inl err \<Rightarrow> Inl err | Inr x \<Rightarrow> Inr (fst x, Emitted ev # snd x))"

subsection \<open>What a recipient can see and do during a transfer\<close>

text \<open>The operations that pay out of the escrow.\<close>

fun pays_out :: "call \<Rightarrow> bool" where
  "pays_out (ApproveMilestone pid mid) = True"
| "pays_out (AutoApproveMilestone pid mid) = True"
| "pays_out (VoteOnDispute did pct) = True"
| "pays_out (CancelProject pid) = True"
| "pays_out c = False"

text \<open>
  A state refuses a second payout when none of these operations, called in that state
  by anybody at any time, gets to make a transfer: it reverts, or it succeeds with no
  payment in its log.
\<close>

definition refuses_payout :: "state \<Rightarrow> bool" where
  "refuses_payout t \<longleftrightarrow>
     (\<forall>e c s' log. pays_out c \<and> exec e c t = Inr (s', log) \<longrightarrow> transfers log = [])"

definition resolved_flag :: "nat \<Rightarrow> state \<Rightarrow> bool" where
  "resolved_flag did s = isResolved (disputes s did)"

definition milestone_status :: "nat \<Rightarrow> nat \<Rightarrow> state \<Rightarrow> MilestoneStatus" where
  "milestone_status pid mid s = m_status (projectMilestones s pid ! mid)"

definition project_status :: "nat \<Rightarrow> state \<Rightarrow> ProjectStatus" where
  "project_status pid s = p_status (projects s pid)"

definition milestone_submittedAt :: "nat \<Rightarrow> nat \<Rightarrow> state \<Rightarrow> nat" where
  "milestone_submittedAt pid mid s = submittedAt (projectMilestones s pid ! mid)"

text \<open>A reading of the storage at each transfer of a log.\<close>

definition seen :: "(state \<Rightarrow> 'a) \<Rightarrow> effect list \<Rightarrow> 'a list" where
  "seen f log = map f (snapshots log)"

text \<open>The scenario's milestone approved by the client, and its dispute resolved.\<close>

text \<open>The environment \<open>e\<close> with the address \<open>a\<close> refusing every payment.\<close>

definition refusing :: "address \<Rightarrow> env \<Rightarrow> env" where
  "refusing a e = e\<lparr>accepts := (\<lambda>b. b \<noteq> a)\<rparr>"

definition approved_script :: "(env \<times> call) list" where
  "approved_script = submitted_script @ [(at 2 20, ApproveMilestone 0 0)]"

definition resolved_script :: "(env \<times> call) list" where
  "resolved_script = disputed_script @ [(at 4 40, VoteOnDispute 0 40)]"

section \<open>Basic facts\<close>

lemma and_then_Inl [simp]: "and_then (Inl e) f = Inl e"
  by (simp add: and_then_def)

lemma and_then_Inr [simp]: "and_then (Inr x) f = f x"
  by (simp add: and_then_def)

lemma and_then_eq_Inr: "and_then r f = Inr y \<longleftrightarrow> (\<exists>x. r = Inr x \<and> f x = Inr y)"
  by (cases r) simp_all

lemma checked_add_eq_Inr: "checked_add a b = Inr c \<longleftrightarrow> a + b \<le> MAX_UINT256 \<and> c = a + b"
  by (auto simp: checked_add_def)

lemma checked_sub_eq_Inr: "checked_sub a b = Inr c \<longleftrightarrow> b \<le> a \<and> c = a - b"
  by (auto simp: checked_sub_def)

lemma checked_mul_eq_Inr: "checked_mul a b = Inr c \<longleftrightarrow> a * b \<le> MAX_UINT256 \<and> c = a * b"
  by (auto simp: checked_mul_def)

lemma checked_div_eq_Inr: "checked_div a b = Inr c \<longleftrightarrow> b \<noteq> 0 \<and> c = a div b"
  by (auto simp: checked_div_def)

lemma store_pair [simp]: "store f (s, log) = (f s, log)"
  by (simp add: store_def)

lemma emit_pair [simp]: "emit ev (s, log) = (s, log @ [Emitted ev])"
  by (simp add: emit_def)

lemma fst_store [simp]: "fst (store f r) = f (fst r)"
  by (simp add: store_def)

lemma snd_store [simp]: "snd (store f r) = snd r"
  by (simp add: store_def)

lemma fst_emit [simp]: "fst (emit ev r) = fst r"
  by (simp add: emit_def)

lemma snd_emit [simp]: "snd (emit ev r) = snd r @ [Emitted ev]"
  by (simp add: emit_def)

lemma transfer_eq_Inr:
  "transfer e to amt r = Inr r' \<longleftrightarrow>
     amt \<le> balance (fst r) \<and> accepts e to \<and>
     r' = ((fst r)\<lparr>balance := balance (fst r) - amt\<rparr>,
           snd r @ [Sent to amt ((fst r)\<lparr>balance := balance (fst r) - amt\<rparr>)])"
  by (auto simp: transfer_def Let_def)

lemma nonPayable_eq_Inr [simp]:
  "nonPayable e body r = Inr y \<longleftrightarrow> msg_value e = 0 \<and> body r = Inr y"
  by (simp add: nonPayable_def)

lemma nonPayable_no_value [simp]: "msg_value e = 0 \<Longrightarrow> nonPayable e body r = body r"
  by (simp add: nonPayable_def)

lemma projectExists_eq_Inr:
  "projectExists pid body r = Inr y \<longleftrightarrow> pid < projectCounter (fst r) \<and> body r = Inr y"
  by (simp add: projectExists_def)

lemma onlyClient_eq_Inr:
  "onlyClient e pid body r = Inr y \<longleftrightarrow>
     msg_sender e = client (projects (fst r) pid) \<and> body r = Inr y"
  by (simp add: onlyClient_def)

lemma onlyFreelancer_eq_Inr:
  "onlyFreelancer e pid body r = Inr y \<longleftrightarrow>
     msg_sender e = freelancer (projects (fst r) pid) \<and> body r = Inr y"
  by (simp add: onlyFreelancer_def)

lemma onlyParticipant_eq_Inr:
  "onlyParticipant e pid body r = Inr y \<longleftrightarrow>
     (msg_sender e = client (projects (fst r) pid)
      \<or> msg_sender e = freelancer (projects (fst r) pid))
     \<and> body r = Inr y"
  by (simp add: onlyParticipant_def)

lemma onlyAdmin_eq_Inr:
  "onlyAdmin e body r = Inr y \<longleftrightarrow>
     (isAdmin (fst r) (msg_sender e) \<or> msg_sender e = owner (fst r)) \<and> body r = Inr y"
  by (simp add: onlyAdmin_def)

lemma onlyOwner_eq_Inr:
  "onlyOwner e body r = Inr y \<longleftrightarrow> owner (fst r) = msg_sender e \<and> body r = Inr y"
  by (simp add: onlyOwner_def)

lemma whenNotPaused_eq_Inr:
  "whenNotPaused body r = Inr y \<longleftrightarrow> \<not> paused (fst r) \<and> body r = Inr y"
  by (simp add: whenNotPaused_def)

lemma whenPaused_eq_Inr:
  "whenPaused body r = Inr y \<longleftrightarrow> paused (fst r) \<and> body r = Inr y"
  by (simp add: whenPaused_def)

lemma nonReentrant_eq_Inr:
  "nonReentrant body r = Inr y \<longleftrightarrow>
     \<not> entered (fst r) \<and>
     (\<exists>r'. body (store (\<lambda>s. s\<lparr>entered := True\<rparr>) r) = Inr r' \<and>
           y = store (\<lambda>s. s\<lparr>entered := False\<rparr>) r')"
  by (auto simp: nonReentrant_def and_then_eq_Inr)

lemmas eq_Inr =
  and_then_eq_Inr checked_add_eq_Inr checked_sub_eq_Inr checked_mul_eq_Inr checked_div_eq_Inr
  transfer_eq_Inr projectExists_eq_Inr onlyClient_eq_Inr onlyFreelancer_eq_Inr
  onlyParticipant_eq_Inr onlyAdmin_eq_Inr onlyOwner_eq_Inr whenNotPaused_eq_Inr
  whenPaused_eq_Inr nonReentrant_eq_Inr

text \<open>Everything a concrete run unfolds.\<close>

lemmas run_defs =
  addAdmin_def removeAdmin_def pause_def unpause_def setPlatformFee_def transferOwnership_def
  renounceOwnership_def createProject_def acceptProject_def submitMilestone_def
  releaseMilestonePayment_def approveMilestone_def autoApproveMilestone_def raiseDispute_def
  executeDisputeResolution_def voteOnDispute_def rateUser_def cancelProject_def
  onlyClient_def onlyFreelancer_def onlyParticipant_def projectExists_def onlyAdmin_def
  onlyOwner_def whenNotPaused_def whenPaused_def nonReentrant_def nonPayable_def transfer_def
  checked_add_def checked_sub_def checked_mul_def checked_div_def MAX_UINT256_def
  set_project_status_def set_milestone_status_def allMilestonesApproved_def
  DISPUTE_TIMEOUT_def AUTO_APPROVE_TIMEOUT_def REQUIRED_ADMIN_VOTES_def
  constructor_def empty_project_def empty_dispute_def at_def paying_def Let_def
  submitted_script_def disputed_script_def view_def refusing_def

lemma transfers_append [simp]: "transfers (log @ log') = transfers log @ transfers log'"
  by (induction log rule: transfers.induct) simp_all

lemma snapshots_append [simp]: "snapshots (log @ log') = snapshots log @ snapshots log'"
  by (induction log rule: snapshots.induct) simp_all

lemma events_append [simp]: "events (log @ log') = events log @ events log'"
  by (induction log rule: events.induct) simp_all

lemma nth_status_update_amount [simp]:
  "amount (xs[i := (xs ! i)\<lparr>m_status := st\<rparr>] ! j) = amount (xs ! j)"
  by (cases "i < length xs"; cases "j = i") (simp_all add: list_update_beyond)

lemma nth_status_update_submittedAt [simp]:
  "submittedAt (xs[i := (xs ! i)\<lparr>m_status := st\<rparr>] ! j) = submittedAt (xs ! j)"
  by (cases "i < length xs"; cases "j = i") (simp_all add: list_update_beyond)

lemma nth_status_update_status:
  "m_status (xs[i := (xs ! i)\<lparr>m_status := st\<rparr>] ! j) =
     (if j = i \<and> i < length xs then st else m_status (xs ! j))"
  by (cases "i < length xs"; cases "j = i") (simp_all add: list_update_beyond)

lemma run_calls_append:
  "run_calls (xs @ ys) r = and_then (run_calls xs r) (run_calls ys)"
  by (induction xs arbitrary: r) (auto simp: and_then_def split: sum.splits)

lemma run_calls_reachable:
  "run_calls xs r = Inr r' \<Longrightarrow> reachable (fst r) \<Longrightarrow> reachable (fst r')"
proof (induction xs arbitrary: r)
  case Nil
  then show ?case by simp
next
  case (Cons x xs)
  from Cons.prems(1) obtain r1 where r1: "exec (fst x) (snd x) (fst r) = Inr r1"
    and rest: "run_calls xs r1 = Inr r'"
    by (auto simp: and_then_eq_Inr)
  from r1 Cons.prems(2) have "reachable (fst r1)"
    by (cases r1) (auto intro: reachable.called)
  with rest show ?case by (rule Cons.IH)
qed

section \<open>Ratings\<close>

text \<open>
  C10. \<open>getUserRating\<close> never fails: for an address without ratings it returns 0 and
  does not divide; otherwise it returns the rating points divided by the rating count,
  rounded down. The division by zero that would panic cannot happen.
\<close>

theorem getUserRating_total:
  "getUserRating s u =
     Inr (if userRatingCount s u = 0 then 0 else userRatings s u div userRatingCount s u)"
  by (simp add: getUserRating_def checked_div_def)

section \<open>The fee split of a released milestone\<close>

lemma release_transfers:
  assumes "releaseMilestonePayment e pid mid r = Inr r'"
  shows "transfers (snd r') = transfers (snd r) @
           [(freelancer (projects (fst r) pid),
             amount (projectMilestones (fst r) pid ! mid)
               - amount (projectMilestones (fst r) pid ! mid) * platformFeePercent (fst r) div 100),
            (owner (fst r),
             amount (projectMilestones (fst r) pid ! mid) * platformFeePercent (fst r) div 100)]
         \<and> amount (projectMilestones (fst r) pid ! mid) * platformFeePercent (fst r) div 100
             \<le> amount (projectMilestones (fst r) pid ! mid)"
  using assms
  by (auto simp: releaseMilestonePayment_def Let_def eq_Inr set_milestone_status_def
           split: if_splits)

lemma approval_transfers:
  assumes "c = ApproveMilestone pid mid \<or> c = AutoApproveMilestone pid mid"
    and "exec e c s = Inr (s', log)"
  shows "transfers log =
           [(freelancer (projects s pid),
             amount (projectMilestones s pid ! mid)
               - amount (projectMilestones s pid ! mid) * platformFeePercent s div 100),
            (owner s, amount (projectMilestones s pid ! mid) * platformFeePercent s div 100)]
         \<and> amount (projectMilestones s pid ! mid) * platformFeePercent s div 100
             \<le> amount (projectMilestones s pid ! mid)"
proof -
  from assms obtain r r' where rel: "releaseMilestonePayment e pid mid r = Inr r'"
    and r: "fst r = s\<lparr>entered := True\<rparr>" "transfers (snd r) = []" and r': "log = snd r'"
    by (auto simp: approveMilestone_def autoApproveMilestone_def eq_Inr split: if_splits)
  from release_transfers [OF rel] r r' show ?thesis
    by simp
qed

text \<open>
  C2. Whenever a manual or an automatic approval releases a milestone, exactly two
  payments leave the contract: the amount minus the fee to the freelancer, then the fee
  to the owner, where the fee is the amount times the fee percentage divided by 100,
  rounded down. Fee and payee amount add up to the milestone amount.
\<close>

theorem release_fee_split:
  assumes "c = ApproveMilestone pid mid \<or> c = AutoApproveMilestone pid mid"
    and "exec e c s = Inr (s', log)"
  shows "let amt = amount (projectMilestones s pid ! mid);
             fee = amt * platformFeePercent s div 100;
             payeeAmount = amt - fee
         in transfers log = [(freelancer (projects s pid), payeeAmount), (owner s, fee)]
            \<and> fee + payeeAmount = amt"
  using approval_transfers [OF assms] by (simp add: Let_def)

theorem release_fee_split_witness:
  "\<exists>r s' log. run_calls submitted_script (constructor 1, []) = Inr r
     \<and> exec (at 2 20) (ApproveMilestone 0 0) (fst r) = Inr (s', log)
     \<and> transfers log = [(3, 98), (1, 2)] \<and> (2::nat) + 98 = 100"
proof -
  have "\<exists>r s' log. run_calls submitted_script (constructor 1, []) = Inr r
     \<and> exec (at 2 20) (ApproveMilestone 0 0) (fst r) = Inr (s', log)"
    by (simp add: run_defs)
  then obtain r s' log where r: "run_calls submitted_script (constructor 1, []) = Inr r"
    and ex: "exec (at 2 20) (ApproveMilestone 0 0) (fst r) = Inr (s', log)"
    by blast
  from r have vals: "amount (projectMilestones (fst r) 0 ! 0) = 100"
    "platformFeePercent (fst r) = 2" "freelancer (projects (fst r) 0) = 3" "owner (fst r) = 1"
    by (auto simp: run_defs)
  from release_fee_split [OF disjI1 [OF refl] ex] vals
  have "transfers log = [(3, 98), (1, 2)]"
    by (simp add: Let_def)
  with r ex show ?thesis by auto
qed

section \<open>The admin roster\<close>

lemma removeFromList_skip:
  "i \<le> length ys \<Longrightarrow> a \<notin> set ys \<Longrightarrow>
   removeFromList i a (ys @ a # zs) = butlast ((ys @ a # zs)[length ys := last (a # zs)])"
proof (induction "length ys - i" arbitrary: i)
  case 0
  then have "i = length ys" by simp
  then show ?case
    by (subst removeFromList.simps) (simp add: last_conv_nth nth_append)
next
  case (Suc n)
  then have lt: "i < length ys" by simp
  with Suc.prems have ne: "(ys @ a # zs) ! i \<noteq> a"
    by (auto simp: nth_append)
  from Suc lt have "removeFromList (i + 1) a (ys @ a # zs)
      = butlast ((ys @ a # zs)[length ys := last (a # zs)])"
    by (intro Suc.hyps(1)) auto
  with lt ne show ?case
    by (subst removeFromList.simps) simp
qed

lemma removeFromList_first:
  "a \<notin> set ys \<Longrightarrow>
   removeFromList 0 a (ys @ a # zs) = (if zs = [] then ys else ys @ last zs # butlast zs)"
  by (simp add: removeFromList_skip butlast_append)

lemma removeFromList_absent:
  "a \<notin> set (drop i xs) \<Longrightarrow> removeFromList i a xs = xs"
proof (induction i a xs rule: removeFromList.induct)
  case (1 i a xs)
  show ?case
  proof (cases "i < length xs")
    case True
    with "1.prems" have "xs ! i \<noteq> a" "a \<notin> set (drop (i + 1) xs)"
      by (auto simp: Cons_nth_drop_Suc [symmetric])
    with True "1.IH" show ?thesis
      by (subst removeFromList.simps) simp
  next
    case False
    then show ?thesis by (subst removeFromList.simps) simp
  qed
qed

lemma removeFromList_length_le:
  "length (removeFromList 0 a xs) \<ge> length xs - 1"
proof (cases "a \<in> set xs")
  case True
  then obtain ys zs where "xs = ys @ a # zs" "a \<notin> set ys"
    by (auto dest: split_list_first)
  then show ?thesis by (simp add: removeFromList_first)
next
  case False
  then show ?thesis by (simp add: removeFromList_absent)
qed

lemma removeFromList_roster:
  assumes "distinct xs" "a \<in> set xs"
  shows "distinct (removeFromList 0 a xs) \<and> set (removeFromList 0 a xs) = set xs - {a}
         \<and> length (removeFromList 0 a xs) = length xs - 1"
proof -
  from assms(2) obtain ys zs where xs: "xs = ys @ a # zs" "a \<notin> set ys"
    by (auto dest: split_list_first)
  show ?thesis
  proof (cases zs rule: rev_cases)
    case Nil
    with xs assms(1) show ?thesis by (auto simp: removeFromList_first)
  next
    case (snoc zs' l)
    with xs have eq: "removeFromList 0 a xs = ys @ l # zs'"
      by (simp add: removeFromList_first)
    from snoc xs assms(1) have d: "distinct ys" "distinct zs'" "a \<noteq> l" "a \<notin> set zs'"
      "l \<notin> set ys" "l \<notin> set zs'" "set ys \<inter> set zs' = {}"
      by auto
    from d xs(2) have "set (ys @ l # zs') = set xs - {a}"
      unfolding xs(1) snoc by auto
    with d eq snoc xs show ?thesis by simp
  qed
qed


lemma frame_roster:
  assumes "exec e c s = Inr (s', log)" "\<forall>a. c \<noteq> AddAdmin a \<and> c \<noteq> RemoveAdmin a"
  shows "adminList s' = adminList s \<and> isAdmin s' = isAdmin s"
  using assms
  apply (cases c)
  apply (simp_all)
  apply (auto simp: pause_def unpause_def eq_Inr)[2]
  apply (auto simp: createProject_def eq_Inr Let_def split: if_splits)[1]
  apply (auto simp: acceptProject_def eq_Inr Let_def split: if_splits)[1]
  apply (auto simp: submitMilestone_def eq_Inr Let_def split: if_splits)[1]
  apply (auto simp: approveMilestone_def releaseMilestonePayment_def set_milestone_status_def set_project_status_def eq_Inr Let_def split: if_splits)[1]
  apply (auto simp: autoApproveMilestone_def releaseMilestonePayment_def set_milestone_status_def set_project_status_def eq_Inr Let_def split: if_splits)[1]
  apply (auto simp: raiseDispute_def set_milestone_status_def set_project_status_def eq_Inr Let_def split: if_splits)[1]
  apply (auto simp: voteOnDispute_def executeDisputeResolution_def set_milestone_status_def set_project_status_def eq_Inr Let_def split: if_splits)[1]
  apply (auto simp: rateUser_def eq_Inr Let_def split: if_splits)[1]
  apply (auto simp: cancelProject_def set_project_status_def eq_Inr Let_def split: if_splits)[1]
  apply (auto simp: setPlatformFee_def transferOwnership_def renounceOwnership_def eq_Inr Let_def split: if_splits)
  done

lemma addAdmin_result:
  "addAdmin e a (s, []) = Inr (s', log) \<longleftrightarrow>
     msg_value e = 0 \<and> owner s = msg_sender e \<and> \<not> isAdmin s a \<and> a \<noteq> 0 \<and>
     s' = s\<lparr>isAdmin := (isAdmin s)(a := True), adminList := adminList s @ [a]\<rparr> \<and>
     log = [Emitted (AdminAdded a)]"
  by (auto simp: addAdmin_def eq_Inr)

lemma removeAdmin_result:
  "removeAdmin e a (s, []) = Inr (s', log) \<longleftrightarrow>
     msg_value e = 0 \<and> owner s = msg_sender e \<and> isAdmin s a \<and> 1 < length (adminList s) \<and>
     s' = s\<lparr>isAdmin := (isAdmin s)(a := False),
             adminList := removeFromList 0 a (adminList s)\<rparr> \<and>
     log = [Emitted (AdminRemoved a)]"
  by (auto simp: removeAdmin_def eq_Inr)

lemma roster_ok_step:
  assumes "roster_ok s" "exec e c s = Inr (s', log)"
  shows "roster_ok s'"
proof -
  consider a where "c = AddAdmin a" | a where "c = RemoveAdmin a"
    | "\<forall>a. c \<noteq> AddAdmin a \<and> c \<noteq> RemoveAdmin a"
    by blast
  then show ?thesis
  proof cases
    case 1
    with assms show ?thesis
      by (auto simp: addAdmin_result roster_ok_def)
  next
    case 2
    with assms(2) have s': "adminList s' = removeFromList 0 a (adminList s)"
      "isAdmin s' = (isAdmin s)(a := False)" "isAdmin s a" "1 < length (adminList s)"
      by (auto simp: removeAdmin_result)
    from assms(1) s'(3) have mem: "a \<in> set (adminList s)" "distinct (adminList s)"
      by (auto simp: roster_ok_def)
    note rm = removeFromList_roster [OF mem(2) mem(1)]
    from rm s'(4) have "removeFromList 0 a (adminList s) \<noteq> []"
      by (metis One_nat_def length_0_conv less_numeral_extra(3) zero_less_diff)
    with rm s' assms(1) show ?thesis
      by (auto simp: roster_ok_def)
  next
    case 3
    from frame_roster [OF assms(2) 3] assms(1) show ?thesis
      by (simp add: roster_ok_def)
  qed
qed

lemma reachable_roster_ok: "reachable s \<Longrightarrow> roster_ok s"
proof (induction rule: reachable.induct)
  case (deployed deployer)
  show ?case by (auto simp: roster_ok_def constructor_def)
next
  case (called s e c s' log)
  then show ?case by (auto intro: roster_ok_step)
qed

text \<open>
  C9, as the code has it. In every reachable state the roster has at least one member.
  The constructor makes the deployer its only member. For the owner as caller, sending
  no value:
  \<open>addAdmin\<close> rejects a listed address and the zero address and otherwise appends;
  \<open>removeAdmin\<close> fails with a StateError for an address that is not listed and
  for the last remaining member, and otherwise moves the last element into the place of
  the first occurrence and drops the last element, which removes the address from the
  roster. The first member stays the first member under every successful call except
  the removal of that first member itself: the deployer is first after deployment, but
  the owner may remove it once a second admin exists.
\<close>

theorem admin_roster:
  assumes "reachable s" and "owner s = msg_sender e" and "msg_value e = 0"
  shows "1 \<le> length (adminList s)
     \<and> adminList (constructor d) = [d]
     \<and> (a \<in> set (adminList s) \<longrightarrow>
          exec e (AddAdmin a) s = Inl (StateError ''Already an admin''))
     \<and> (a \<notin> set (adminList s) \<and> a = 0 \<longrightarrow>
          exec e (AddAdmin a) s = Inl (ValidationError ''Invalid address''))
     \<and> (a \<notin> set (adminList s) \<and> a \<noteq> 0 \<longrightarrow>
          (\<exists>s' log. exec e (AddAdmin a) s = Inr (s', log) \<and> adminList s' = adminList s @ [a]))
     \<and> (a \<notin> set (adminList s) \<longrightarrow>
          exec e (RemoveAdmin a) s = Inl (StateError ''Not an admin''))
     \<and> (a \<in> set (adminList s) \<and> length (adminList s) = 1 \<longrightarrow>
          exec e (RemoveAdmin a) s = Inl (StateError ''Cannot remove last admin''))
     \<and> (a \<in> set (adminList s) \<and> 1 < length (adminList s) \<longrightarrow>
          (\<exists>s' log ys zs. exec e (RemoveAdmin a) s = Inr (s', log)
             \<and> adminList s = ys @ a # zs \<and> a \<notin> set ys
             \<and> adminList s' = (if zs = [] then ys else ys @ last zs # butlast zs)
             \<and> set (adminList s') = set (adminList s) - {a}))
     \<and> (\<forall>e' c s' log. exec e' c s = Inr (s', log) \<and> c \<noteq> RemoveAdmin (hd (adminList s))
          \<longrightarrow> hd (adminList s') = hd (adminList s))"
proof -
  from assms(1) have ok: "roster_ok s" by (rule reachable_roster_ok)
  then have mem: "\<And>x. isAdmin s x \<longleftrightarrow> x \<in> set (adminList s)"
    and ne: "adminList s \<noteq> []" and dist: "distinct (adminList s)"
    by (auto simp: roster_ok_def)
  have c1: "1 \<le> length (adminList s)"
    using ne by (cases "adminList s") simp_all
  have c2: "adminList (constructor d) = [d]"
    by (simp add: constructor_def)
  have c3: "a \<in> set (adminList s) \<longrightarrow>
          exec e (AddAdmin a) s = Inl (StateError ''Already an admin'')"
    using assms(2,3) mem by (simp add: addAdmin_def onlyOwner_def)
  have c4: "a \<notin> set (adminList s) \<and> a = 0 \<longrightarrow>
          exec e (AddAdmin a) s = Inl (ValidationError ''Invalid address'')"
    using assms(2,3) mem by (auto simp: addAdmin_def onlyOwner_def)
  have c5: "a \<notin> set (adminList s) \<and> a \<noteq> 0 \<longrightarrow>
          (\<exists>s' log. exec e (AddAdmin a) s = Inr (s', log) \<and> adminList s' = adminList s @ [a])"
    using assms(2,3) mem by (simp add: addAdmin_def onlyOwner_def)
  have c6: "a \<notin> set (adminList s) \<longrightarrow>
          exec e (RemoveAdmin a) s = Inl (StateError ''Not an admin'')"
    using assms(2,3) mem by (simp add: removeAdmin_def onlyOwner_def)
  have c7: "a \<in> set (adminList s) \<and> length (adminList s) = 1 \<longrightarrow>
          exec e (RemoveAdmin a) s = Inl (StateError ''Cannot remove last admin'')"
    using assms(2,3) mem by (simp add: removeAdmin_def onlyOwner_def)
  have c8: "a \<in> set (adminList s) \<and> 1 < length (adminList s) \<longrightarrow>
          (\<exists>s' log ys zs. exec e (RemoveAdmin a) s = Inr (s', log)
             \<and> adminList s = ys @ a # zs \<and> a \<notin> set ys
             \<and> adminList s' = (if zs = [] then ys else ys @ last zs # butlast zs)
             \<and> set (adminList s') = set (adminList s) - {a})"
  proof
    assume h: "a \<in> set (adminList s) \<and> 1 < length (adminList s)"
    then obtain ys zs where split: "adminList s = ys @ a # zs" "a \<notin> set ys"
      by (auto dest: split_list_first)
    from h assms(2,3) mem have run: "exec e (RemoveAdmin a) s =
        Inr (s\<lparr>isAdmin := (isAdmin s)(a := False),
                adminList := removeFromList 0 a (adminList s)\<rparr>, [Emitted (AdminRemoved a)])"
      by (simp add: removeAdmin_def onlyOwner_def)
    from split have l: "removeFromList 0 a (adminList s)
        = (if zs = [] then ys else ys @ last zs # butlast zs)"
      by (simp add: removeFromList_first)
    from h dist have st: "set (removeFromList 0 a (adminList s)) = set (adminList s) - {a}"
      by (simp add: removeFromList_roster)
    show "\<exists>s' log ys zs. exec e (RemoveAdmin a) s = Inr (s', log)
             \<and> adminList s = ys @ a # zs \<and> a \<notin> set ys
             \<and> adminList s' = (if zs = [] then ys else ys @ last zs # butlast zs)
             \<and> set (adminList s') = set (adminList s) - {a}"
      apply (rule exI [where x = "s\<lparr>isAdmin := (isAdmin s)(a := False),
                adminList := removeFromList 0 a (adminList s)\<rparr>"])
      apply (rule exI [where x = "[Emitted (AdminRemoved a)]"])
      apply (rule exI [where x = ys])
      apply (rule exI [where x = zs])
      using run split l st apply simp
      done
  qed
  have c9: "\<forall>e' c s' log. exec e' c s = Inr (s', log) \<and> c \<noteq> RemoveAdmin (hd (adminList s))
          \<longrightarrow> hd (adminList s') = hd (adminList s)"
  proof (intro allI impI)
    fix e' c s' log
    assume h: "exec e' c s = Inr (s', log) \<and> c \<noteq> RemoveAdmin (hd (adminList s))"
    consider b where "c = AddAdmin b" | b where "c = RemoveAdmin b"
      | "\<forall>b. c \<noteq> AddAdmin b \<and> c \<noteq> RemoveAdmin b"
      by blast
    then show "hd (adminList s') = hd (adminList s)"
    proof cases
      case 1
      with h ne show ?thesis by (auto simp: addAdmin_result)
    next
      case 2
      with h have b: "b \<noteq> hd (adminList s)" "isAdmin s b"
        and s': "adminList s' = removeFromList 0 b (adminList s)"
        by (auto simp: removeAdmin_result)
      from b(2) mem obtain ys zs where split: "adminList s = ys @ b # zs" "b \<notin> set ys"
        by (auto dest: split_list_first)
      with b(1) have "ys \<noteq> []" by (cases ys) auto
      with split s' show ?thesis
        by (simp add: removeFromList_first)
    next
      case 3
      with h frame_roster [of e' c s s' log] show ?thesis by simp
    qed
  qed
  from c1 c2 c3 c4 c5 c6 c7 c8 c9 show ?thesis by blast
qed

theorem admin_roster_witness:
  "\<exists>r. run_calls [(at 1 0, AddAdmin 4)] (constructor 1, []) = Inr r
     \<and> owner (fst r) = msg_sender (at 1 5) \<and> msg_value (at 1 5) = 0
     \<and> adminList (fst r) = [1, 4]
     \<and> exec (at 1 5) (AddAdmin 4) (fst r) = Inl (StateError ''Already an admin'')
     \<and> exec (at 1 5) (RemoveAdmin 7) (fst r) = Inl (StateError ''Not an admin'')
     \<and> (\<exists>s' log. exec (at 1 5) (RemoveAdmin 4) (fst r) = Inr (s', log) \<and> adminList s' = [1])"
proof -
  have "\<exists>r. run_calls [(at 1 0, AddAdmin 4)] (constructor 1, []) = Inr r"
    by (simp add: run_defs)
  then obtain r where r: "run_calls [(at 1 0, AddAdmin 4)] (constructor 1, []) = Inr r"
    by blast
  then have reach: "reachable (fst r)"
    by (rule run_calls_reachable) (simp add: reachable.deployed)
  from r have own: "owner (fst r) = msg_sender (at 1 5)" and lst: "adminList (fst r) = [1, 4]"
    by (auto simp: run_defs)
  have val: "msg_value (at 1 5) = 0"
    by (simp add: at_def)
  note inst = admin_roster [OF reach own val, where d = 1]
  from inst [where a = 4] lst have a: "exec (at 1 5) (AddAdmin 4) (fst r) = Inl (StateError ''Already an admin'')"
    by simp
  from inst [where a = 7] lst have b: "exec (at 1 5) (RemoveAdmin 7) (fst r) = Inl (StateError ''Not an admin'')"
    by simp
  from inst [where a = 4] lst obtain s' log ys zs where rm: "exec (at 1 5) (RemoveAdmin 4) (fst r) = Inr (s', log)"
    and "[1, 4] = ys @ 4 # zs" "4 \<notin> set ys" "set (adminList s') = {1, 4} - {4::nat}"
    and l: "adminList s' = (if zs = [] then ys else ys @ last zs # butlast zs)"
    by auto
  then have "ys = [1] \<and> zs = []"
    by (cases ys; cases "tl ys") auto
  with l have "adminList s' = [1]" by simp
  with r own val lst a b rm show ?thesis by blast
qed

text \<open>
  The deployer, address 1, adds address 4 and then removes itself: the roster is [4].
\<close>

theorem deployer_first_counterexample:
  "observe adminList [(at 1 0, AddAdmin 4), (at 1 1, RemoveAdmin 1)] 1 = Inr [4]"
  by (simp add: observe_def run_defs removeFromList.simps)

section \<open>Dispute resolution\<close>

lemma Suc_Suc_0_eq_2: "Suc (Suc 0) = 2"
  by simp


lemma resolution_status:
  assumes "executeDisputeResolution e did (s, l) = Inr (s', l')"
  shows "isResolved (disputes s' did)
     \<and> m_status (projectMilestones s' (projectId (disputes s did))
                   ! milestoneId (disputes s did)) = APPROVED
     \<and> p_status (projects s' (projectId (disputes s did))) = ACTIVE"
  using assms
  by (auto simp: executeDisputeResolution_def eq_Inr Let_def set_milestone_status_def
        set_project_status_def split: if_splits)

text \<open>
  C6. When a vote reaches the quorum and the resolution completes, the dispute is
  resolved, its milestone is APPROVED, and its project is ACTIVE. The project is never
  set to COMPLETED here, whether or not this was its last open milestone: the resolution
  writes ACTIVE without looking at the other milestones.
\<close>

theorem resolution_sets_active:
  assumes "exec e (VoteOnDispute did pct) s = Inr (s', log)"
    and "REQUIRED_ADMIN_VOTES \<le> voteCount (disputes s did) + 1"
  shows "isResolved (disputes s' did)
     \<and> m_status (projectMilestones s' (projectId (disputes s did))
                   ! milestoneId (disputes s did)) = APPROVED
     \<and> p_status (projects s' (projectId (disputes s did))) = ACTIVE
     \<and> p_status (projects s' (projectId (disputes s did))) \<noteq> COMPLETED"
proof -
  from assms obtain s1 l1 where ex: "executeDisputeResolution e did (s1, l1) = Inr (s', log)"
    and r: "projectId (disputes s1 did) = projectId (disputes s did)"
           "milestoneId (disputes s1 did) = milestoneId (disputes s did)"
    by (auto simp: voteOnDispute_def eq_Inr Let_def split: if_splits)
  from resolution_status [OF ex] r show ?thesis by simp
qed


text \<open>
  The project of the scenario has a single milestone: after the resolution all its
  milestones are APPROVED and it is ACTIVE.
\<close>

theorem resolution_sets_active_witness:
  "\<exists>r s' log. run_calls disputed_script (constructor 1, []) = Inr r
     \<and> exec (at 4 40) (VoteOnDispute 0 40) (fst r) = Inr (s', log)
     \<and> allMilestonesApproved s' 0
     \<and> isResolved (disputes s' 0) \<and> m_status (projectMilestones s' 0 ! 0) = APPROVED
     \<and> p_status (projects s' 0) = ACTIVE"
proof -
  have "\<exists>r s' log. run_calls disputed_script (constructor 1, []) = Inr r
     \<and> exec (at 4 40) (VoteOnDispute 0 40) (fst r) = Inr (s', log)
     \<and> allMilestonesApproved s' 0"
    by (simp add: run_defs Suc_Suc_0_eq_2)
  then obtain r s' log where r: "run_calls disputed_script (constructor 1, []) = Inr r"
    and ex: "exec (at 4 40) (VoteOnDispute 0 40) (fst r) = Inr (s', log)"
    and all: "allMilestonesApproved s' 0"
    by blast
  from r have vals: "voteCount (disputes (fst r) 0) = 1" "projectId (disputes (fst r) 0) = 0"
    "milestoneId (disputes (fst r) 0) = 0"
    by (auto simp: run_defs)
  then have "REQUIRED_ADMIN_VOTES \<le> voteCount (disputes (fst r) 0) + 1"
    by (simp add: REQUIRED_ADMIN_VOTES_def)
  from resolution_sets_active [OF ex this] vals r ex all show ?thesis
    by auto
qed

lemma if_Inl_eq_Inr: "((if c then Inl err else x) = Inr y) = (\<not> c \<and> x = Inr y)"
  by simp

lemma cond_transfer_eq_Inr:
  assumes "(if c then transfer e to amt r else Inr r) = Inr r'"
  shows "r' = (if c then ((fst r)\<lparr>balance := balance (fst r) - amt\<rparr>,
                          snd r @ [Sent to amt ((fst r)\<lparr>balance := balance (fst r) - amt\<rparr>)])
               else r)"
  using assms by (cases c) (auto simp: transfer_eq_Inr)




section \<open>The pause gate\<close>

lemma first_error_None [simp]: "first_error cs = None \<longleftrightarrow> list_all fst cs"
  by (induction cs) simp_all

lemma first_error_Some [simp]:
  "first_error [] = Some err \<longleftrightarrow> False"
  "first_error (c # cs) = Some err \<longleftrightarrow>
     (fst c \<and> first_error cs = Some err) \<or> (\<not> fst c \<and> snd c = err)"
  by simp_all

declare first_error.simps [simp del]

lemma paused_rejects:
  assumes "paused s" "pause_gated c \<or> c = Pause"
  shows "\<exists>err. exec e c s = Inl err"
  using assms
  by (cases c)
     (simp_all add: createProject_def acceptProject_def submitMilestone_def approveMilestone_def
        autoApproveMilestone_def raiseDispute_def voteOnDispute_def rateUser_def
        cancelProject_def pause_def whenNotPaused_def projectExists_def onlyClient_def
        onlyFreelancer_def onlyParticipant_def onlyAdmin_def onlyOwner_def nonReentrant_def
        nonPayable_def)

lemma paused_unavailable:
  assumes "paused s" "pause_gated c \<or> c = Pause" "earlier_check_error e c s = None"
  shows "exec e c s = Inl (UnavailableError ''Pausable: paused'')"
  using assms
  by (cases c)
     (auto simp: createProject_def acceptProject_def submitMilestone_def approveMilestone_def
        autoApproveMilestone_def raiseDispute_def voteOnDispute_def rateUser_def
        cancelProject_def pause_def whenNotPaused_def projectExists_def onlyClient_def
        onlyFreelancer_def onlyParticipant_def onlyAdmin_def onlyOwner_def nonReentrant_def)

lemma earlier_check_rejects:
  assumes "earlier_check_error e c s = Some err"
  shows "exec e c s = Inl err"
  using assms
  by (cases c)
     (auto simp: addAdmin_def removeAdmin_def pause_def unpause_def setPlatformFee_def
        transferOwnership_def renounceOwnership_def acceptProject_def submitMilestone_def
        approveMilestone_def autoApproveMilestone_def raiseDispute_def voteOnDispute_def
        rateUser_def cancelProject_def projectExists_def onlyClient_def onlyFreelancer_def
        onlyParticipant_def onlyAdmin_def onlyOwner_def nonReentrant_def nonPayable_def
        split: if_splits)

lemma gated_or_ungated: "pause_gated c \<or> c = Pause \<or> owner_ungated c"
  by (cases c) simp_all

lemma owner_calls_while_paused:
  assumes "paused s" "owner s = msg_sender e" "msg_value e = 0"
  shows "exec e Unpause s
           = Inr (s\<lparr>paused := False\<rparr>,
                  [Emitted (Unpaused (msg_sender e)), Emitted (ContractUnpaused (msg_sender e))])"
    and "pct \<le> 10 \<Longrightarrow>
           exec e (SetPlatformFee pct) s = Inr (s\<lparr>platformFeePercent := pct\<rparr>, [])"
    and "a \<noteq> 0 \<Longrightarrow>
           exec e (TransferOwnership a) s
             = Inr (s\<lparr>owner := a\<rparr>, [Emitted (OwnershipTransferred (owner s) a)])"
    and "exec e RenounceOwnership s
           = Inr (s\<lparr>owner := 0\<rparr>, [Emitted (OwnershipTransferred (owner s) 0)])"
    and "\<not> isAdmin s a \<and> a \<noteq> 0 \<Longrightarrow>
           exec e (AddAdmin a) s
             = Inr (s\<lparr>isAdmin := (isAdmin s)(a := True), adminList := adminList s @ [a]\<rparr>,
                    [Emitted (AdminAdded a)])"
    and "isAdmin s a \<and> 1 < length (adminList s) \<Longrightarrow>
           exec e (RemoveAdmin a) s
             = Inr (s\<lparr>isAdmin := (isAdmin s)(a := False),
                      adminList := removeFromList 0 a (adminList s)\<rparr>,
                    [Emitted (AdminRemoved a)])"
  using assms
  by (simp_all add: unpause_def setPlatformFee_def transferOwnership_def renounceOwnership_def
        addAdmin_def removeAdmin_def onlyOwner_def whenPaused_def)

text \<open>
  C5, as the code has it. Every operation is one of three kinds. While the contract is
  paused, each of the nine operations that carry \<open>whenNotPaused\<close>, and \<open>pause\<close>
  itself, reverts, so it changes nothing; the revert is the pause gate's
  UnavailableError whenever the checks that run before the gate pass (no value sent to
  an operation that is not payable, and the modifiers listed before the gate), and the
  revert of the first such check that fails otherwise. The six other operations of the
  owner,
  \<open>unpause\<close>, \<open>addAdmin\<close>, \<open>removeAdmin\<close>, \<open>setPlatformFee\<close>,
  \<open>transferOwnership\<close> and \<open>renounceOwnership\<close>, ignore the pause flag: called by
  the owner without value while the contract is paused, each of them succeeds whenever
  its own requirements hold, and changes the storage.
\<close>

theorem pause_gate:
  assumes "paused s"
  shows "(pause_gated c \<or> c = Pause \<or> owner_ungated c)
     \<and> (pause_gated c \<or> c = Pause \<longrightarrow> (\<exists>err. exec e c s = Inl err))
     \<and> ((pause_gated c \<or> c = Pause) \<and> earlier_check_error e c s = None \<longrightarrow>
          exec e c s = Inl (UnavailableError ''Pausable: paused''))
     \<and> ((pause_gated c \<or> c = Pause) \<and> earlier_check_error e c s = Some err \<longrightarrow>
          exec e c s = Inl err)
     \<and> (owner s = msg_sender e \<and> msg_value e = 0 \<longrightarrow>
          exec e Unpause s
            = Inr (s\<lparr>paused := False\<rparr>,
                   [Emitted (Unpaused (msg_sender e)), Emitted (ContractUnpaused (msg_sender e))])
          \<and> (pct \<le> 10 \<longrightarrow>
               exec e (SetPlatformFee pct) s = Inr (s\<lparr>platformFeePercent := pct\<rparr>, []))
          \<and> (a \<noteq> 0 \<longrightarrow>
               exec e (TransferOwnership a) s
                 = Inr (s\<lparr>owner := a\<rparr>, [Emitted (OwnershipTransferred (owner s) a)]))
          \<and> exec e RenounceOwnership s
               = Inr (s\<lparr>owner := 0\<rparr>, [Emitted (OwnershipTransferred (owner s) 0)])
          \<and> (\<not> isAdmin s a \<and> a \<noteq> 0 \<longrightarrow>
               exec e (AddAdmin a) s
                 = Inr (s\<lparr>isAdmin := (isAdmin s)(a := True), adminList := adminList s @ [a]\<rparr>,
                        [Emitted (AdminAdded a)]))
          \<and> (isAdmin s a \<and> 1 < length (adminList s) \<longrightarrow>
               exec e (RemoveAdmin a) s
                 = Inr (s\<lparr>isAdmin := (isAdmin s)(a := False),
                          adminList := removeFromList 0 a (adminList s)\<rparr>,
                        [Emitted (AdminRemoved a)])))"
  using paused_rejects [OF assms, of c e] paused_unavailable [OF assms, of c e]
    gated_or_ungated [of c] owner_calls_while_paused [OF assms, of e]
    earlier_check_rejects [of e c s err]
  by blast

theorem pause_gate_witness:
  "\<exists>r. run_calls [(at 1 0, Pause)] (constructor 1, []) = Inr r \<and> paused (fst r)
     \<and> exec (paying 2 1 100) (CreateProject ''Site'' ''Qm1'' [''Design''] [100] [1000]) (fst r)
         = Inl (UnavailableError ''Pausable: paused'')
     \<and> exec (at 7 1) (RateUser 3 5) (fst r) = Inl (UnavailableError ''Pausable: paused'')
     \<and> exec (at 1 1) Pause (fst r) = Inl (UnavailableError ''Pausable: paused'')
     \<and> exec (at 2 1) (ApproveMilestone 0 0) (fst r)
         = Inl (ValidationError ''Project does not exist'')
     \<and> exec (at 1 1) (SetPlatformFee 5) (fst r) = Inr ((fst r)\<lparr>platformFeePercent := 5\<rparr>, [])
     \<and> exec (at 1 1) (TransferOwnership 5) (fst r)
         = Inr ((fst r)\<lparr>owner := 5\<rparr>, [Emitted (OwnershipTransferred 1 5)])"
proof -
  have "\<exists>r. run_calls [(at 1 0, Pause)] (constructor 1, []) = Inr r"
    by (simp add: run_defs)
  then obtain r where r: "run_calls [(at 1 0, Pause)] (constructor 1, []) = Inr r"
    by blast
  then have p: "paused (fst r)" and o: "owner (fst r) = 1" and n: "projectCounter (fst r) = 0"
    by (auto simp: run_defs)
  from pause_gate [OF p, of "CreateProject ''Site'' ''Qm1'' [''Design''] [100] [1000]" "paying 2 1 100"]
  have a: "exec (paying 2 1 100) (CreateProject ''Site'' ''Qm1'' [''Design''] [100] [1000]) (fst r)
         = Inl (UnavailableError ''Pausable: paused'')"
    by simp
  from pause_gate [OF p, of "RateUser 3 5" "at 7 1"]
  have a2: "exec (at 7 1) (RateUser 3 5) (fst r) = Inl (UnavailableError ''Pausable: paused'')"
    by (simp add: at_def)
  from pause_gate [OF p, of Pause "at 1 1"] o
  have a3: "exec (at 1 1) Pause (fst r) = Inl (UnavailableError ''Pausable: paused'')"
    by (simp add: at_def)
  from pause_gate [OF p, where c = "ApproveMilestone 0 0" and e = "at 2 1"
      and err = "ValidationError ''Project does not exist''"] n
  have b: "exec (at 2 1) (ApproveMilestone 0 0) (fst r)
         = Inl (ValidationError ''Project does not exist'')"
    by (simp add: at_def)
  from pause_gate [OF p, where e = "at 1 1" and pct = 5 and a = 5] o
  have c: "exec (at 1 1) (SetPlatformFee 5) (fst r) = Inr ((fst r)\<lparr>platformFeePercent := 5\<rparr>, [])"
    and d: "exec (at 1 1) (TransferOwnership 5) (fst r)
         = Inr ((fst r)\<lparr>owner := 5\<rparr>, [Emitted (OwnershipTransferred 1 5)])"
    by (simp_all add: at_def)
  from r p a a2 a3 b c d show ?thesis by blast
qed

text \<open>
  The owner pauses a fresh deployment and then sets the fee to 5: the call succeeds, the
  contract is still paused, and the fee has changed from 2 to 5. In the same way the
  owner hands the ownership to address 5 while the contract is paused. And the approval
  of a milestone of a project that does not exist is rejected while the contract is
  paused, but with a ValidationError, not with the pause gate's UnavailableError.
\<close>

theorem paused_setPlatformFee_counterexample:
  "observe paused [(at 1 0, Pause), (at 1 1, SetPlatformFee 5)] 1 = Inr True
   \<and> observe platformFeePercent [(at 1 0, Pause)] 1 = Inr 2
   \<and> observe platformFeePercent [(at 1 0, Pause), (at 1 1, SetPlatformFee 5)] 1 = Inr 5
   \<and> observe paused [(at 1 0, Pause), (at 1 1, TransferOwnership 5)] 1 = Inr True
   \<and> observe owner [(at 1 0, Pause)] 1 = Inr 1
   \<and> observe owner [(at 1 0, Pause), (at 1 1, TransferOwnership 5)] 1 = Inr 5
   \<and> run_calls [(at 1 0, Pause), (at 2 1, ApproveMilestone 0 0)] (constructor 1, [])
       = Inl (ValidationError ''Project does not exist'')"
  by (simp add: observe_def run_defs)

section \<open>Invariants\<close>

lemma inv_frame:
  assumes "inv s"
    and "entered s' = entered s" "platformFeePercent s' \<le> 10"
    and "projectCounter s' = projectCounter s" "projectMilestones s' = projectMilestones s"
    and "disputeCounter s' = disputeCounter s" "disputes s' = disputes s"
    and "projects s' = projects s"
  shows "inv s'"
  using assms by (simp add: inv_def open_dispute_def dispute_pins_def)

text \<open>A call that touches one project, and that project is not DISPUTED.\<close>

lemma inv_touch_one:
  assumes "inv s" and st: "p_status (projects s pid) \<noteq> DISPUTED"
    and "entered s' = entered s" "platformFeePercent s' = platformFeePercent s"
    and "projectCounter s' = projectCounter s"
    and "disputeCounter s' = disputeCounter s" "disputes s' = disputes s"
    and rest: "\<forall>p. p \<noteq> pid \<longrightarrow>
           projects s' p = projects s p \<and> projectMilestones s' p = projectMilestones s p"
    and len: "length (projectMilestones s' pid) = length (projectMilestones s pid)"
  shows "inv s'"
proof -
  have op: "open_dispute s' d = open_dispute s d" for d
    using assms by (simp add: open_dispute_def)
  have pins: "dispute_pins s' d" if "open_dispute s d" for d
  proof -
    from that assms(1) have p: "dispute_pins s d" by (simp add: inv_def)
    with st have "projectId (disputes s d) \<noteq> pid" by (auto simp: dispute_pins_def)
    with p rest assms(7) show ?thesis by (simp add: dispute_pins_def)
  qed
  have fresh: "projectMilestones s' p = []" if "projectCounter s \<le> p" for p
  proof (cases "p = pid")
    case True
    from that assms(1) have "projectMilestones s p = []" by (simp add: inv_def)
    with True len show ?thesis by simp
  next
    case False
    with that assms(1) rest show ?thesis by (simp add: inv_def)
  qed
  from assms(1) have "\<forall>d d'. open_dispute s d \<and> open_dispute s d'
            \<and> projectId (disputes s d) = projectId (disputes s d') \<longrightarrow> d = d'"
    by (simp add: inv_def)
  with assms(1,3-7) pins fresh show ?thesis
    unfolding inv_def op by simp
qed

lemma inv_simple_calls:
  assumes "inv s" "exec e c s = Inr (s', log)"
    and "c = AddAdmin a \<or> c = RemoveAdmin a \<or> c = Pause \<or> c = Unpause \<or> c = RateUser u n
         \<or> c = TransferOwnership a \<or> c = RenounceOwnership \<or> c = SetPlatformFee n"
  shows "inv s'"
proof -
  from assms(1) have "platformFeePercent s \<le> 10" by (simp add: inv_def)
  with assms(3,2) show ?thesis
    by (elim disjE)
       (auto simp: addAdmin_def removeAdmin_def pause_def unpause_def rateUser_def
          transferOwnership_def renounceOwnership_def setPlatformFee_def eq_Inr if_Inl_eq_Inr
          intro!: inv_frame [OF assms(1)])
qed

lemma inv_acceptProject:
  assumes "inv s" "exec e (AcceptProject pid) s = Inr (s', log)"
  shows "inv s'"
proof -
  from assms(2) have "p_status (projects s pid) \<noteq> DISPUTED
    \<and> entered s' = entered s \<and> platformFeePercent s' = platformFeePercent s
    \<and> projectCounter s' = projectCounter s
    \<and> disputeCounter s' = disputeCounter s \<and> disputes s' = disputes s
    \<and> (\<forall>p. p \<noteq> pid \<longrightarrow>
           projects s' p = projects s p \<and> projectMilestones s' p = projectMilestones s p)
    \<and> length (projectMilestones s' pid) = length (projectMilestones s pid)"
    by (auto simp: acceptProject_def eq_Inr if_Inl_eq_Inr)
  with assms(1) show ?thesis by (intro inv_touch_one [of s pid s']) simp_all
qed

lemma inv_cancelProject:
  assumes "inv s" "exec e (CancelProject pid) s = Inr (s', log)"
  shows "inv s'"
proof -
  from assms(2) have "p_status (projects s pid) \<noteq> DISPUTED
    \<and> entered s' = entered s \<and> platformFeePercent s' = platformFeePercent s
    \<and> projectCounter s' = projectCounter s
    \<and> disputeCounter s' = disputeCounter s \<and> disputes s' = disputes s
    \<and> (\<forall>p. p \<noteq> pid \<longrightarrow>
           projects s' p = projects s p \<and> projectMilestones s' p = projectMilestones s p)
    \<and> length (projectMilestones s' pid) = length (projectMilestones s pid)"
    by (auto simp: cancelProject_def eq_Inr if_Inl_eq_Inr set_project_status_def Let_def)
  with assms(1) show ?thesis by (intro inv_touch_one [of s pid s']) simp_all
qed

lemma inv_submitMilestone:
  assumes "inv s" "exec e (SubmitMilestone pid mid dh) s = Inr (s', log)"
  shows "inv s'"
proof -
  from assms(2) have "p_status (projects s pid) \<noteq> DISPUTED
    \<and> entered s' = entered s \<and> platformFeePercent s' = platformFeePercent s
    \<and> projectCounter s' = projectCounter s
    \<and> disputeCounter s' = disputeCounter s \<and> disputes s' = disputes s
    \<and> (\<forall>p. p \<noteq> pid \<longrightarrow>
           projects s' p = projects s p \<and> projectMilestones s' p = projectMilestones s p)
    \<and> length (projectMilestones s' pid) = length (projectMilestones s pid)"
    by (auto simp: submitMilestone_def eq_Inr if_Inl_eq_Inr)
  with assms(1) show ?thesis by (intro inv_touch_one [of s pid s']) simp_all
qed

lemma release_frame:
  assumes "releaseMilestonePayment e pid mid (s, l) = Inr (s', l')"
  shows "entered s' = entered s \<and> platformFeePercent s' = platformFeePercent s
     \<and> projectCounter s' = projectCounter s \<and> disputeCounter s' = disputeCounter s
     \<and> disputes s' = disputes s
     \<and> (\<forall>p. p \<noteq> pid \<longrightarrow> projects s' p = projects s p \<and> projectMilestones s' p = projectMilestones s p)
     \<and> length (projectMilestones s' pid) = length (projectMilestones s pid)
     \<and> (p_status (projects s' pid) = p_status (projects s pid)
         \<or> p_status (projects s' pid) = COMPLETED)
     \<and> (\<forall>i. m_status (projectMilestones s' pid ! i) =
            (if i = mid \<and> mid < length (projectMilestones s pid) then APPROVED
             else m_status (projectMilestones s pid ! i)))"
  using assms
  apply (simp add: releaseMilestonePayment_def and_then_eq_Inr checked_div_eq_Inr
      checked_mul_eq_Inr checked_sub_eq_Inr transfer_eq_Inr Let_def)
  apply (elim exE conjE)
  apply (auto simp: set_milestone_status_def set_project_status_def nth_status_update_status
      split: if_splits)
  done

lemma inv_release:
  assumes "inv (s\<lparr>entered := False\<rparr>)" "p_status (projects s pid) = ACTIVE"
    and "releaseMilestonePayment e pid mid (s, l) = Inr (s', l')"
  shows "inv (s'\<lparr>entered := False\<rparr>)"
  using release_frame [OF assms(3)] assms(2)
  by (intro inv_touch_one [OF assms(1), of pid]) simp_all

lemma inv_approveMilestone:
  assumes "inv s" "exec e (ApproveMilestone pid mid) s = Inr (s', log)"
  shows "inv s'"
proof -
  from assms(2) obtain s1 l1 where rel: "releaseMilestonePayment e pid mid (s\<lparr>entered := True\<rparr>, []) = Inr (s1, l1)"
    and s': "s' = s1\<lparr>entered := False\<rparr>" and act: "p_status (projects s pid) = ACTIVE"
    and ne: "\<not> entered s"
    by (auto simp: approveMilestone_def eq_Inr if_Inl_eq_Inr)
  from ne have "s\<lparr>entered := True, entered := False\<rparr> = s" by simp
  with assms(1) have "inv ((s\<lparr>entered := True\<rparr>)\<lparr>entered := False\<rparr>)" by simp
  from inv_release [OF this _ rel] act s' show ?thesis by simp
qed

lemma inv_autoApproveMilestone:
  assumes "inv s" "exec e (AutoApproveMilestone pid mid) s = Inr (s', log)"
  shows "inv s'"
proof -
  from assms(2) obtain s1 l0 l1 where rel: "releaseMilestonePayment e pid mid (s\<lparr>entered := True\<rparr>, l0) = Inr (s1, l1)"
    and s': "s' = s1\<lparr>entered := False\<rparr>" and act: "p_status (projects s pid) = ACTIVE"
    and ne: "\<not> entered s"
    by (auto simp: autoApproveMilestone_def eq_Inr if_Inl_eq_Inr)
  from ne have "s\<lparr>entered := True, entered := False\<rparr> = s" by simp
  with assms(1) have "inv ((s\<lparr>entered := True\<rparr>)\<lparr>entered := False\<rparr>)" by simp
  from inv_release [OF this _ rel] act s' show ?thesis by simp
qed

lemma raiseDispute_frame:
  assumes "exec e (RaiseDispute pid mid rsn) s = Inr (s', log)"
  shows "entered s' = entered s \<and> platformFeePercent s' = platformFeePercent s
     \<and> projectCounter s' = projectCounter s \<and> disputeCounter s' = disputeCounter s + 1
     \<and> p_status (projects s pid) = ACTIVE \<and> mid < length (projectMilestones s pid)
     \<and> m_status (projectMilestones s pid ! mid) = SUBMITTED
     \<and> projects s' = (projects s)(pid := (projects s pid)\<lparr>p_status := DISPUTED\<rparr>)
     \<and> projectMilestones s' = (projectMilestones s)
           (pid := (projectMilestones s pid)[mid := (projectMilestones s pid ! mid)\<lparr>m_status := M_DISPUTED\<rparr>])
     \<and> (\<forall>d. d \<noteq> disputeCounter s \<longrightarrow> disputes s' d = disputes s d)
     \<and> projectId (disputes s' (disputeCounter s)) = pid
     \<and> milestoneId (disputes s' (disputeCounter s)) = mid
     \<and> \<not> isResolved (disputes s' (disputeCounter s))"
  using assms
  by (auto simp: raiseDispute_def eq_Inr if_Inl_eq_Inr Let_def set_project_status_def
        set_milestone_status_def)

lemma inv_raiseDispute:
  assumes "inv s" "exec e (RaiseDispute pid mid rsn) s = Inr (s', log)"
  shows "inv s'"
proof -
  note fr = raiseDispute_frame [OF assms(2)]
  have other: "projectId (disputes s d) \<noteq> pid" if "open_dispute s d" for d
  proof -
    from that assms(1) have "dispute_pins s d" by (simp add: inv_def)
    with fr show ?thesis by (auto simp: dispute_pins_def)
  qed
  have old: "open_dispute s d" if "open_dispute s' d" "d \<noteq> disputeCounter s" for d
    using that fr by (auto simp: open_dispute_def)
  have pins: "dispute_pins s' d" if o: "open_dispute s' d" for d
  proof (cases "d = disputeCounter s")
    case True
    with fr show ?thesis by (simp add: dispute_pins_def)
  next
    case False
    from old [OF o False] assms(1) have "dispute_pins s d" by (simp add: inv_def)
    with other [OF old [OF o False]] False fr show ?thesis
      by (simp add: dispute_pins_def)
  qed
  have uniq: "d = d'" if "open_dispute s' d" "open_dispute s' d'"
    "projectId (disputes s' d) = projectId (disputes s' d')" for d d'
  proof (cases "d = disputeCounter s"; cases "d' = disputeCounter s")
    assume "d = disputeCounter s" "d' = disputeCounter s"
    then show ?thesis by simp
  next
    assume a: "d = disputeCounter s" "d' \<noteq> disputeCounter s"
    with that fr other [OF old [OF that(2) a(2)]] show ?thesis by auto
  next
    assume a: "d \<noteq> disputeCounter s" "d' = disputeCounter s"
    with that fr other [OF old [OF that(1) a(1)]] show ?thesis by auto
  next
    assume a: "d \<noteq> disputeCounter s" "d' \<noteq> disputeCounter s"
    with that fr old [OF that(1) a(1)] old [OF that(2) a(2)] assms(1) show ?thesis
      by (auto simp: inv_def)
  qed
  have fresh: "projectMilestones s' p = []" if "projectCounter s' \<le> p" for p
    using that fr assms(1) by (auto simp: inv_def)
  from assms(1) fr have "\<not> entered s'" "platformFeePercent s' \<le> 10"
    by (simp_all add: inv_def)
  with pins uniq fresh show ?thesis
    unfolding inv_def by blast
qed

lemma resolution_frame:
  assumes "executeDisputeResolution e did (s, l) = Inr (s', l')"
  shows "\<not> entered s' \<and> \<not> entered s \<and> \<not> isResolved (disputes s did)
     \<and> platformFeePercent s' = platformFeePercent s
     \<and> projectCounter s' = projectCounter s \<and> disputeCounter s' = disputeCounter s
     \<and> milestoneId (disputes s did) < length (projectMilestones s (projectId (disputes s did)))
     \<and> disputes s' = (disputes s)(did := (disputes s did)\<lparr>isResolved := True\<rparr>)
     \<and> projects s' = (projects s)(projectId (disputes s did) :=
           (projects s (projectId (disputes s did)))\<lparr>p_status := ACTIVE\<rparr>)
     \<and> projectMilestones s' = (projectMilestones s)(projectId (disputes s did) :=
           (projectMilestones s (projectId (disputes s did)))
             [milestoneId (disputes s did) :=
                (projectMilestones s (projectId (disputes s did)) ! milestoneId (disputes s did))
                  \<lparr>m_status := APPROVED\<rparr>])"
  using assms
  apply (simp add: executeDisputeResolution_def nonReentrant_eq_Inr and_then_eq_Inr
      checked_div_eq_Inr checked_mul_eq_Inr checked_sub_eq_Inr if_Inl_eq_Inr Let_def
      split_paired_Ex)
  apply (elim exE conjE)
  apply (drule cond_transfer_eq_Inr)+
  apply (auto simp: set_milestone_status_def set_project_status_def split: if_splits)
  done


lemma inv_vote_recorded:
  assumes "inv s"
  shows "inv (s\<lparr>disputes := (disputes s)(did := (disputes s did)
            \<lparr>hasVoted := h, votes := v, voteCount := n\<rparr>)\<rparr>)"
proof -
  let ?s1 = "s\<lparr>disputes := (disputes s)(did := (disputes s did)
            \<lparr>hasVoted := h, votes := v, voteCount := n\<rparr>)\<rparr>"
  have same: "open_dispute ?s1 d = open_dispute s d" "dispute_pins ?s1 d = dispute_pins s d"
    "projectId (disputes ?s1 d) = projectId (disputes s d)" for d
    by (simp_all add: open_dispute_def dispute_pins_def)
  from assms show ?thesis
    unfolding inv_def same by simp
qed

lemma inv_resolution:
  assumes "inv s" "did < disputeCounter s"
    and "executeDisputeResolution e did (s, l) = Inr (s', l')"
  shows "inv s'"
proof -
  note fr = resolution_frame [OF assms(3)]
  from fr assms(2) have op: "open_dispute s did" by (simp add: open_dispute_def)
  have old: "open_dispute s d \<and> d \<noteq> did" if "open_dispute s' d" for d
    using that fr by (auto simp: open_dispute_def split: if_splits)
  have other: "projectId (disputes s d) \<noteq> projectId (disputes s did)"
    if "open_dispute s d" "d \<noteq> did" for d
    using that op assms(1) by (auto simp: inv_def)
  have pins: "dispute_pins s' d" if o: "open_dispute s' d" for d
  proof -
    from old [OF o] have d: "open_dispute s d" "d \<noteq> did" by simp_all
    with assms(1) have "dispute_pins s d" by (simp add: inv_def)
    with other [OF d] d fr show ?thesis by (simp add: dispute_pins_def)
  qed
  have uniq: "d = d'" if "open_dispute s' d" "open_dispute s' d'"
    "projectId (disputes s' d) = projectId (disputes s' d')" for d d'
  proof -
    from old [OF that(1)] old [OF that(2)] that(3) fr
    have "open_dispute s d" "open_dispute s d'" "projectId (disputes s d) = projectId (disputes s d')"
      by simp_all
    with assms(1) show ?thesis by (auto simp: inv_def)
  qed
  have fresh: "projectMilestones s' p = []" if "projectCounter s' \<le> p" for p
    using that fr assms(1) by (auto simp: inv_def)
  from assms(1) fr have "\<not> entered s'" "platformFeePercent s' \<le> 10"
    by (simp_all add: inv_def)
  with pins uniq fresh show ?thesis
    unfolding inv_def by blast
qed

lemma voteOnDispute_checks:
  assumes "exec e (VoteOnDispute did pct) s = Inr (s', log)"
  shows "did < disputeCounter s \<and> \<not> isResolved (disputes s did) \<and> pct \<le> 100
     \<and> \<not> hasVoted (disputes s did) (msg_sender e) \<and> \<not> paused s
     \<and> (isAdmin s (msg_sender e) \<or> msg_sender e = owner s)"
  using assms
  by (simp add: voteOnDispute_def onlyAdmin_eq_Inr whenNotPaused_eq_Inr and_then_eq_Inr
        checked_add_eq_Inr if_Inl_eq_Inr Let_def)

lemma voteOnDispute_quorum:
  assumes "exec e (VoteOnDispute did pct) s = Inr (s', log)"
    and "REQUIRED_ADMIN_VOTES \<le> voteCount (disputes s did) + 1"
  shows "executeDisputeResolution e did
                (s\<lparr>disputes := (disputes s)(did := (disputes s did)
                     \<lparr>hasVoted := (hasVoted (disputes s did))(msg_sender e := True),
                      votes := (votes (disputes s did))(msg_sender e := pct),
                      voteCount := voteCount (disputes s did) + 1\<rparr>)\<rparr>,
                 [Emitted (DisputeVoted did (msg_sender e) pct)]) = Inr (s', log)"
  using assms
  by (simp add: voteOnDispute_def onlyAdmin_eq_Inr whenNotPaused_eq_Inr and_then_eq_Inr
        checked_add_eq_Inr if_Inl_eq_Inr Let_def)

lemma voteOnDispute_recorded:
  assumes "exec e (VoteOnDispute did pct) s = Inr (s', log)"
    and "\<not> REQUIRED_ADMIN_VOTES \<le> voteCount (disputes s did) + 1"
  shows "s' = s\<lparr>disputes := (disputes s)(did := (disputes s did)
                     \<lparr>hasVoted := (hasVoted (disputes s did))(msg_sender e := True),
                      votes := (votes (disputes s did))(msg_sender e := pct),
                      voteCount := voteCount (disputes s did) + 1\<rparr>)\<rparr>
         \<and> log = [Emitted (DisputeVoted did (msg_sender e) pct)]"
  using assms
  by (auto simp: voteOnDispute_def onlyAdmin_eq_Inr whenNotPaused_eq_Inr and_then_eq_Inr
        checked_add_eq_Inr if_Inl_eq_Inr Let_def)

lemma inv_voteOnDispute:
  assumes "inv s" "exec e (VoteOnDispute did pct) s = Inr (s', log)"
  shows "inv s'"
proof (cases "REQUIRED_ADMIN_VOTES \<le> voteCount (disputes s did) + 1")
  case True
  from voteOnDispute_checks [OF assms(2)] have "did < disputeCounter s" by simp
  then show ?thesis
    by (intro inv_resolution [OF inv_vote_recorded [OF assms(1)] _
          voteOnDispute_quorum [OF assms(2) True]]) simp
next
  case False
  from voteOnDispute_recorded [OF assms(2) False] have "s' = s\<lparr>disputes := (disputes s)(did := (disputes s did)
                     \<lparr>hasVoted := (hasVoted (disputes s did))(msg_sender e := True),
                      votes := (votes (disputes s did))(msg_sender e := pct),
                      voteCount := voteCount (disputes s did) + 1\<rparr>)\<rparr>"
    by (rule conjunct1)
  then show ?thesis
    by (simp only: inv_vote_recorded [OF assms(1)])
qed

lemma createProject_frame:
  assumes "exec e (CreateProject ttl dh descs amounts deadlines) s = Inr (s', log)"
  shows "entered s' = entered s \<and> platformFeePercent s' = platformFeePercent s
     \<and> projectCounter s' = projectCounter s + 1 \<and> disputeCounter s' = disputeCounter s
     \<and> disputes s' = disputes s
     \<and> (\<forall>p. p \<noteq> projectCounter s \<longrightarrow>
           projects s' p = projects s p \<and> projectMilestones s' p = projectMilestones s p)"
  using assms
  apply (simp add: createProject_def whenNotPaused_eq_Inr and_then_eq_Inr checked_add_eq_Inr
      if_Inl_eq_Inr Let_def)
  apply (elim exE conjE)
  apply (drule cond_transfer_eq_Inr)
  apply (auto split: if_splits)
  done

lemma inv_createProject:
  assumes "inv s" "exec e (CreateProject ttl dh descs amounts deadlines) s = Inr (s', log)"
  shows "inv s'"
proof -
  note fr = createProject_frame [OF assms(2)]
  have known: "projectId (disputes s d) \<noteq> projectCounter s" if "open_dispute s d" for d
  proof
    assume eq: "projectId (disputes s d) = projectCounter s"
    from that assms(1) have "dispute_pins s d" by (simp add: inv_def)
    then have "projectMilestones s (projectId (disputes s d)) \<noteq> []"
      by (auto simp: dispute_pins_def)
    with eq assms(1) show False by (simp add: inv_def)
  qed
  have old: "open_dispute s d" if "open_dispute s' d" for d
    using that fr by (simp add: open_dispute_def)
  have pins: "dispute_pins s' d" if o: "open_dispute s' d" for d
  proof -
    from old [OF o] assms(1) have "dispute_pins s d" by (simp add: inv_def)
    with known [OF old [OF o]] fr show ?thesis by (simp add: dispute_pins_def)
  qed
  have uniq: "d = d'" if "open_dispute s' d" "open_dispute s' d'"
    "projectId (disputes s' d) = projectId (disputes s' d')" for d d'
    using old [OF that(1)] old [OF that(2)] that(3) fr assms(1) by (auto simp: inv_def)
  have fresh: "projectMilestones s' p = []" if "projectCounter s' \<le> p" for p
    using that fr assms(1) by (auto simp: inv_def)
  from assms(1) fr have "\<not> entered s'" "platformFeePercent s' \<le> 10"
    by (simp_all add: inv_def)
  with pins uniq fresh show ?thesis
    unfolding inv_def by blast
qed

lemma inv_step:
  assumes "inv s" "exec e c s = Inr (s', log)"
  shows "inv s'"
proof (cases c)
  case (AddAdmin a)
  with assms inv_simple_calls [of s e c s' log a] show ?thesis by simp
next
  case (RemoveAdmin a)
  with assms inv_simple_calls [of s e c s' log a] show ?thesis by simp
next
  case Pause
  with assms inv_simple_calls [of s e c s' log] show ?thesis by simp
next
  case Unpause
  with assms inv_simple_calls [of s e c s' log] show ?thesis by simp
next
  case (CreateProject ttl dh descs amounts deadlines)
  with assms show ?thesis by (auto intro: inv_createProject)
next
  case (AcceptProject pid)
  with assms show ?thesis by (auto intro: inv_acceptProject)
next
  case (SubmitMilestone pid mid dh)
  with assms show ?thesis by (auto intro: inv_submitMilestone)
next
  case (ApproveMilestone pid mid)
  with assms show ?thesis by (auto intro: inv_approveMilestone)
next
  case (AutoApproveMilestone pid mid)
  with assms show ?thesis by (auto intro: inv_autoApproveMilestone)
next
  case (RaiseDispute pid mid rsn)
  with assms show ?thesis by (auto intro: inv_raiseDispute)
next
  case (VoteOnDispute did pct)
  with assms show ?thesis by (auto intro: inv_voteOnDispute)
next
  case (RateUser u n)
  with assms inv_simple_calls [of s e c s' log _ u n] show ?thesis by simp
next
  case (CancelProject pid)
  with assms show ?thesis by (auto intro: inv_cancelProject)
next
  case (SetPlatformFee pct)
  with assms inv_simple_calls [of s e c s' log _ _ pct] show ?thesis by simp
next
  case (TransferOwnership a)
  with assms inv_simple_calls [of s e c s' log a] show ?thesis by simp
next
  case RenounceOwnership
  with assms inv_simple_calls [of s e c s' log] show ?thesis by simp
qed

lemma reachable_inv: "reachable s \<Longrightarrow> inv s"
proof (induction rule: reachable.induct)
  case (deployed deployer)
  show ?case by (simp add: inv_def open_dispute_def constructor_def)
next
  case (called s e c s' log)
  then show ?case by (auto intro: inv_step)
qed

section \<open>The milestone status machine\<close>

lemma status_step_refl [simp]: "status_step a a"
  by (cases a) simp_all

lemma advances_refl [simp]: "advances ms ms"
  by (auto simp: advances_def)

lemma advances_update:
  assumes "i < length ms" "m_status m' = st" "status_step (m_status (ms ! i)) st"
  shows "advances ms (ms[i := m'])"
  using assms by (auto simp: advances_def nth_list_update)

lemma pushMilestones_eq_Inr:
  "pushMilestones ds as ts ms = Inr ms' \<Longrightarrow> ms' = ms @ pending_milestones ds as ts"
  by (induction ds as ts ms rule: pushMilestones.induct)
     (simp_all add: pending_milestones_def)

lemma pending_milestones_status:
  "i < length (pending_milestones ds as ts) \<Longrightarrow>
   m_status (pending_milestones ds as ts ! i) = PENDING"
  by (simp add: pending_milestones_def split_def)

lemma advances_append_pending: "advances ms (ms @ pending_milestones ds as ts)"
  by (auto simp: advances_def nth_append pending_milestones_status)

lemma frame_milestones:
  assumes "exec e c s = Inr (s', log)"
    and "c = AddAdmin a \<or> c = RemoveAdmin a \<or> c = Pause \<or> c = Unpause \<or> c = RateUser u n
         \<or> c = TransferOwnership a \<or> c = RenounceOwnership \<or> c = SetPlatformFee n
         \<or> c = AcceptProject pid \<or> c = CancelProject pid"
  shows "projectMilestones s' = projectMilestones s"
  using assms(2,1)
  by (elim disjE)
     (auto simp: addAdmin_def removeAdmin_def pause_def unpause_def rateUser_def
        transferOwnership_def renounceOwnership_def setPlatformFee_def acceptProject_def
        cancelProject_def set_project_status_def Let_def eq_Inr if_Inl_eq_Inr)

lemma createProject_milestones:
  assumes "exec e (CreateProject ttl dh descs amounts deadlines) s = Inr (s', log)"
  shows "projectMilestones s' = (projectMilestones s)
           (projectCounter s := projectMilestones s (projectCounter s)
                                 @ pending_milestones descs amounts deadlines)"
  using assms
  apply (simp add: createProject_def whenNotPaused_eq_Inr and_then_eq_Inr checked_add_eq_Inr
      if_Inl_eq_Inr Let_def)
  apply (elim exE conjE)
  apply (drule cond_transfer_eq_Inr)
  apply (drule pushMilestones_eq_Inr)
  apply (auto split: if_splits)
  done

lemma submitMilestone_milestones:
  assumes "exec e (SubmitMilestone pid mid dh) s = Inr (s', log)"
  shows "\<exists>m'. projectMilestones s' = (projectMilestones s)(pid := (projectMilestones s pid)[mid := m'])
     \<and> m_status m' = SUBMITTED \<and> mid < length (projectMilestones s pid)
     \<and> m_status (projectMilestones s pid ! mid) = PENDING"
  using assms
  by (auto simp: submitMilestone_def eq_Inr if_Inl_eq_Inr)

lemma release_milestones:
  assumes "releaseMilestonePayment e pid mid (s, l) = Inr (s', l')"
  shows "projectMilestones s' = (projectMilestones s)
           (pid := (projectMilestones s pid)[mid := (projectMilestones s pid ! mid)\<lparr>m_status := APPROVED\<rparr>])"
  using assms
  apply (simp add: releaseMilestonePayment_def and_then_eq_Inr checked_div_eq_Inr
      checked_mul_eq_Inr checked_sub_eq_Inr transfer_eq_Inr Let_def)
  apply (elim exE conjE)
  apply (auto simp: set_milestone_status_def set_project_status_def split: if_splits)
  done

lemma approve_milestones:
  assumes "exec e c s = Inr (s', log)"
    and "c = ApproveMilestone pid mid \<or> c = AutoApproveMilestone pid mid"
  shows "projectMilestones s' = (projectMilestones s)
           (pid := (projectMilestones s pid)[mid := (projectMilestones s pid ! mid)\<lparr>m_status := APPROVED\<rparr>])
     \<and> mid < length (projectMilestones s pid)
     \<and> m_status (projectMilestones s pid ! mid) = SUBMITTED"
proof -
  from assms obtain l s1 l1 where "releaseMilestonePayment e pid mid (s\<lparr>entered := True\<rparr>, l) = Inr (s1, l1)"
    and "s' = s1\<lparr>entered := False\<rparr>" and "mid < length (projectMilestones s pid)"
    and "m_status (projectMilestones s pid ! mid) = SUBMITTED"
    by (auto simp: approveMilestone_def autoApproveMilestone_def eq_Inr if_Inl_eq_Inr)
  with release_milestones [OF this(1)] show ?thesis by simp
qed

lemma step_advances:
  assumes "inv s" "exec e c s = Inr (s', log)"
  shows "advances (projectMilestones s p) (projectMilestones s' p)"
proof (cases c)
  case (CreateProject ttl dh descs amounts deadlines)
  with assms createProject_milestones [of e ttl dh descs amounts deadlines s s' log]
  show ?thesis by (simp add: advances_append_pending)
next
  case (SubmitMilestone pid mid dh)
  with assms submitMilestone_milestones [of e pid mid dh s s' log]
  show ?thesis by (auto intro!: advances_update)
next
  case (ApproveMilestone pid mid)
  with assms approve_milestones [of e c s s' log pid mid]
  show ?thesis by (auto intro!: advances_update)
next
  case (AutoApproveMilestone pid mid)
  with assms approve_milestones [of e c s s' log pid mid]
  show ?thesis by (auto intro!: advances_update)
next
  case (RaiseDispute pid mid rsn)
  with assms raiseDispute_frame [of e pid mid rsn s s' log]
  show ?thesis by (auto intro!: advances_update)
next
  case (VoteOnDispute did pct)
  show ?thesis
  proof (cases "REQUIRED_ADMIN_VOTES \<le> voteCount (disputes s did) + 1")
    case True
    let ?s1 = "s\<lparr>disputes := (disputes s)(did := (disputes s did)
                     \<lparr>hasVoted := (hasVoted (disputes s did))(msg_sender e := True),
                      votes := (votes (disputes s did))(msg_sender e := pct),
                      voteCount := voteCount (disputes s did) + 1\<rparr>)\<rparr>"
    from assms(2) VoteOnDispute have ex: "exec e (VoteOnDispute did pct) s = Inr (s', log)"
      by simp
    note fr = resolution_frame [OF voteOnDispute_quorum [OF ex True]]
    from voteOnDispute_checks [OF ex] have "open_dispute s did"
      by (simp add: open_dispute_def)
    with assms(1) have "dispute_pins s did" by (simp add: inv_def)
    with fr show ?thesis
      by (auto simp: dispute_pins_def intro!: advances_update)
  next
    case False
    from assms(2) VoteOnDispute have ex: "exec e (VoteOnDispute did pct) s = Inr (s', log)"
      by simp
    from voteOnDispute_recorded [OF ex False] have "projectMilestones s' = projectMilestones s"
      by simp
    then show ?thesis by simp
  qed
next
  case (AddAdmin a)
  with assms frame_milestones [of e c s s' log a] show ?thesis by simp
next
  case (RemoveAdmin a)
  with assms frame_milestones [of e c s s' log a] show ?thesis by simp
next
  case Pause
  with assms frame_milestones [of e c s s' log] show ?thesis by simp
next
  case Unpause
  with assms frame_milestones [of e c s s' log] show ?thesis by simp
next
  case (AcceptProject pid)
  with assms frame_milestones [of e c s s' log _ _ _ pid] show ?thesis by simp
next
  case (RateUser u n)
  with assms frame_milestones [of e c s s' log _ u n] show ?thesis by simp
next
  case (CancelProject pid)
  with assms frame_milestones [of e c s s' log _ _ _ pid] show ?thesis by simp
next
  case (SetPlatformFee pct)
  with assms frame_milestones [of e c s s' log _ _ pct] show ?thesis by simp
next
  case (TransferOwnership a)
  with assms frame_milestones [of e c s s' log a] show ?thesis by simp
next
  case RenounceOwnership
  with assms frame_milestones [of e c s s' log] show ?thesis by simp
qed


lemma approved_release_fails:
  assumes "inv s" "mid < length (projectMilestones s pid)"
    "m_status (projectMilestones s pid ! mid) = APPROVED" "releases s c pid mid"
  shows "(\<exists>err. exec e c s = Inl err)
     \<and> (earlier_check_error e c s = None \<and> \<not> paused s \<longrightarrow>
          (\<exists>msg. exec e c s = Inl (StateError msg)))"
proof (cases c)
  case (ApproveMilestone p m)
  with assms show ?thesis
    by (simp add: approveMilestone_def projectExists_def onlyClient_def nonReentrant_def
          whenNotPaused_def nonPayable_def)
next
  case (AutoApproveMilestone p m)
  with assms show ?thesis
    by (simp add: autoApproveMilestone_def projectExists_def nonReentrant_def
          whenNotPaused_def nonPayable_def)
next
  case (RaiseDispute p m rsn)
  with assms show ?thesis
    by (simp add: raiseDispute_def projectExists_def onlyParticipant_def whenNotPaused_def
          nonPayable_def)
next
  case (VoteOnDispute did pct)
  with assms(4) have d: "did < disputeCounter s" "projectId (disputes s did) = pid"
    "milestoneId (disputes s did) = mid"
    by simp_all
  have "isResolved (disputes s did)"
  proof (rule ccontr)
    assume "\<not> isResolved (disputes s did)"
    with d have "open_dispute s did" by (simp add: open_dispute_def)
    with assms(1) have "dispute_pins s did" by (simp add: inv_def)
    with d assms(3) show False by (simp add: dispute_pins_def)
  qed
  with d VoteOnDispute show ?thesis
    by (simp add: voteOnDispute_def onlyAdmin_def whenNotPaused_def nonPayable_def)
qed (use assms(4) in simp_all)

lemma releases_gated: "releases s c pid mid \<Longrightarrow> pause_gated c"
  by (cases c) simp_all

text \<open>
  C3, as the code has it. In every reachable state, a successful call makes every
  milestone take a step of the status machine PENDING, SUBMITTED, then APPROVED or
  DISPUTED, and from DISPUTED APPROVED; a new milestone starts PENDING, and an APPROVED
  milestone stays APPROVED. Asking again for the release of an APPROVED milestone, by
  approval, by auto-approval, by a dispute or by a vote on its dispute, reverts, so no
  transfer is made. The revert is a StateError when the call gets past the checks that
  run before the status check: no value sent, the caller and lock modifiers, and the
  pause gate. While the contract is paused a call that passes the other checks reverts
  with the pause gate's UnavailableError instead, and a call that does not pass them
  reverts with the revert of the first check that fails.
\<close>

theorem milestone_status_machine:
  assumes "reachable s"
  shows "(\<forall>e c s' log pid. exec e c s = Inr (s', log) \<longrightarrow>
            advances (projectMilestones s pid) (projectMilestones s' pid))
     \<and> (\<forall>e c pid mid. mid < length (projectMilestones s pid)
            \<and> m_status (projectMilestones s pid ! mid) = APPROVED \<and> releases s c pid mid \<longrightarrow>
          (\<exists>err. exec e c s = Inl err)
          \<and> (earlier_check_error e c s = None \<and> \<not> paused s \<longrightarrow>
               (\<exists>msg. exec e c s = Inl (StateError msg)))
          \<and> (earlier_check_error e c s = None \<and> paused s \<longrightarrow>
               exec e c s = Inl (UnavailableError ''Pausable: paused''))
          \<and> (\<forall>err. earlier_check_error e c s = Some err \<longrightarrow> exec e c s = Inl err))"
proof (intro conjI allI impI)
  fix e c s' log pid
  assume "exec e c s = Inr (s', log)"
  with reachable_inv [OF assms] show "advances (projectMilestones s pid) (projectMilestones s' pid)"
    by (rule step_advances)
next
  fix e c pid mid
  assume h: "mid < length (projectMilestones s pid)
            \<and> m_status (projectMilestones s pid ! mid) = APPROVED \<and> releases s c pid mid"
  with approved_release_fails [OF reachable_inv [OF assms], of mid pid c e]
  show "\<exists>err. exec e c s = Inl err"
    by blast
next
  fix e c pid mid
  assume h: "mid < length (projectMilestones s pid)
            \<and> m_status (projectMilestones s pid ! mid) = APPROVED \<and> releases s c pid mid"
    and "earlier_check_error e c s = None \<and> \<not> paused s"
  with approved_release_fails [OF reachable_inv [OF assms], of mid pid c e]
  show "\<exists>msg. exec e c s = Inl (StateError msg)"
    by blast
next
  fix e c pid mid
  assume h: "mid < length (projectMilestones s pid)
            \<and> m_status (projectMilestones s pid ! mid) = APPROVED \<and> releases s c pid mid"
    and p: "earlier_check_error e c s = None \<and> paused s"
  from h have "pause_gated c" by (auto dest: releases_gated)
  with p show "exec e c s = Inl (UnavailableError ''Pausable: paused'')"
    by (intro paused_unavailable) simp_all
next
  fix e c pid mid err
  assume "earlier_check_error e c s = Some err"
  then show "exec e c s = Inl err"
    by (rule earlier_check_rejects)
qed

theorem milestone_status_machine_witness:
  "\<exists>r r' r''. run_calls submitted_script (constructor 1, []) = Inr r
     \<and> exec (at 2 20) (ApproveMilestone 0 0) (fst r) = Inr r'
     \<and> m_status (projectMilestones (fst r) 0 ! 0) = SUBMITTED
     \<and> m_status (projectMilestones (fst r') 0 ! 0) = APPROVED
     \<and> advances (projectMilestones (fst r) 0) (projectMilestones (fst r') 0)
     \<and> (\<exists>msg. exec (at 2 30) (ApproveMilestone 0 0) (fst r') = Inl (StateError msg))
     \<and> (\<exists>msg. exec (at 9 700000) (AutoApproveMilestone 0 0) (fst r') = Inl (StateError msg))
     \<and> exec (at 7 30) (ApproveMilestone 0 0) (fst r')
         = Inl (AuthorizationError ''Only client can call this'')
     \<and> exec (at 1 25) Pause (fst r') = Inr r''
     \<and> exec (at 2 30) (ApproveMilestone 0 0) (fst r'')
         = Inl (UnavailableError ''Pausable: paused'')"
proof -
  have "\<exists>r r' r''. run_calls submitted_script (constructor 1, []) = Inr r
     \<and> exec (at 2 20) (ApproveMilestone 0 0) (fst r) = Inr r'
     \<and> exec (at 1 25) Pause (fst r') = Inr r''"
    by (simp add: run_defs)
  then obtain r r' r'' where r: "run_calls submitted_script (constructor 1, []) = Inr r"
    and r': "exec (at 2 20) (ApproveMilestone 0 0) (fst r) = Inr r'"
    and r'': "exec (at 1 25) Pause (fst r') = Inr r''"
    by blast
  from r have reach: "reachable (fst r)"
    by (rule run_calls_reachable) (simp add: reachable.deployed)
  from reachable.called [OF reach, of "at 2 20" "ApproveMilestone 0 0" "fst r'" "snd r'"] r'
  have reach': "reachable (fst r')"
    by simp
  from reachable.called [OF reach', of "at 1 25" Pause "fst r''" "snd r''"] r''
  have reach'': "reachable (fst r'')"
    by simp
  from r have st: "m_status (projectMilestones (fst r) 0 ! 0) = SUBMITTED"
    by (auto simp: run_defs)
  from r r' have st': "m_status (projectMilestones (fst r') 0 ! 0) = APPROVED"
    "0 < length (projectMilestones (fst r') 0)" "\<not> paused (fst r')" "\<not> entered (fst r')"
    "projectCounter (fst r') = 1" "client (projects (fst r') 0) = 2"
    by (auto simp: run_defs)
  from r r' r'' have st'': "m_status (projectMilestones (fst r'') 0 ! 0) = APPROVED"
    "0 < length (projectMilestones (fst r'') 0)" "paused (fst r'')" "\<not> entered (fst r'')"
    "projectCounter (fst r'') = 1" "client (projects (fst r'') 0) = 2"
    by (auto simp: run_defs)
  from milestone_status_machine [OF reach, THEN conjunct1, rule_format,
      of "at 2 20" "ApproveMilestone 0 0" "fst r'" "snd r'" 0] r'
  have adv: "advances (projectMilestones (fst r) 0) (projectMilestones (fst r') 0)"
    by simp
  from milestone_status_machine [OF reach', THEN conjunct2, rule_format,
      of 0 0 "ApproveMilestone 0 0" "at 2 30"] st'
  have "\<exists>msg. exec (at 2 30) (ApproveMilestone 0 0) (fst r') = Inl (StateError msg)"
    by (simp add: at_def)
  moreover from milestone_status_machine [OF reach', THEN conjunct2, rule_format,
      of 0 0 "AutoApproveMilestone 0 0" "at 9 700000"] st'
  have "\<exists>msg. exec (at 9 700000) (AutoApproveMilestone 0 0) (fst r') = Inl (StateError msg)"
    by (simp add: at_def)
  moreover from milestone_status_machine [OF reach', THEN conjunct2, rule_format,
      of 0 0 "ApproveMilestone 0 0" "at 7 30"] st'
  have "exec (at 7 30) (ApproveMilestone 0 0) (fst r')
         = Inl (AuthorizationError ''Only client can call this'')"
    by (simp add: at_def)
  moreover from milestone_status_machine [OF reach'', THEN conjunct2, rule_format,
      of 0 0 "ApproveMilestone 0 0" "at 2 30"] st''
  have "exec (at 2 30) (ApproveMilestone 0 0) (fst r'')
         = Inl (UnavailableError ''Pausable: paused'')"
    by (simp add: at_def)
  ultimately show ?thesis using r r' r'' st st' adv by blast
qed

text \<open>
  The scenario's milestone is approved and paid; the owner then pauses the contract,
  and the client approves the milestone a second time. The milestone is APPROVED and
  the second approval fails, but with the pause gate's UnavailableError, not with a
  StateError. Without the pause, a second approval by address 7, which is not the
  client, fails with an AuthorizationError, and a second approval by the client that
  carries 5 wei is refused as not payable.
\<close>

theorem paused_second_release_counterexample:
  "observe (milestone_status 0 0) (approved_script @ [(at 1 25, Pause)]) 1 = Inr APPROVED
   \<and> observe paused (approved_script @ [(at 1 25, Pause)]) 1 = Inr True
   \<and> run_calls (approved_script @ [(at 1 25, Pause), (at 2 30, ApproveMilestone 0 0)])
         (constructor 1, [])
       = Inl (UnavailableError ''Pausable: paused'')
   \<and> observe (milestone_status 0 0) approved_script 1 = Inr APPROVED
   \<and> run_calls (approved_script @ [(at 7 30, ApproveMilestone 0 0)]) (constructor 1, [])
       = Inl (AuthorizationError ''Only client can call this'')
   \<and> run_calls (approved_script @ [(paying 2 30 5, ApproveMilestone 0 0)]) (constructor 1, [])
       = Inl NonPayable"
  by (simp add: observe_def milestone_status_def approved_script_def run_defs)

section \<open>Project creation\<close>

lemma sumAmounts_ok:
  "length as = length ds \<Longrightarrow> list_all (\<lambda>a. 0 < a) as \<Longrightarrow> list_all (\<lambda>t. now < t) ds \<Longrightarrow>
   acc + sum_list as \<le> MAX_UINT256 \<Longrightarrow> sumAmounts now as ds acc = Inr (acc + sum_list as)"
proof (induction now as ds acc rule: sumAmounts.induct)
  case (3 now a as d ds tot)
  then show ?case by (simp add: checked_add_def add.assoc)
qed simp_all

lemma sumAmounts_invalid:
  "length as = length ds \<Longrightarrow> \<not> (list_all (\<lambda>a. 0 < a) as \<and> list_all (\<lambda>t. now < t) ds) \<Longrightarrow>
   acc + sum_list as \<le> MAX_UINT256 \<Longrightarrow> \<exists>msg. sumAmounts now as ds acc = Inl (ValidationError msg)"
proof (induction now as ds acc rule: sumAmounts.induct)
  case (3 now a as d ds tot)
  show ?case
  proof (cases "0 < a \<and> now < d")
    case True
    with "3.prems" have "\<exists>msg. sumAmounts now as ds (tot + a) = Inl (ValidationError msg)"
      by (intro "3.IH") (auto simp: checked_add_def add.assoc)
    with True "3.prems" show ?thesis by (simp add: checked_add_def)
  next
    case False
    then show ?thesis by auto
  qed
qed simp_all

lemma sumAmounts_outcome:
  "length as = length ds \<Longrightarrow> \<not> (list_all (\<lambda>a. 0 < a) as \<and> list_all (\<lambda>t. now < t) ds) \<Longrightarrow>
   (\<exists>msg. sumAmounts now as ds acc = Inl (ValidationError msg))
   \<or> sumAmounts now as ds acc = Inl Panic"
proof (induction now as ds acc rule: sumAmounts.induct)
  case (3 now a as d ds tot)
  show ?case
  proof (cases "0 < a \<and> now < d")
    case True
    with "3.prems" have "(\<exists>msg. sumAmounts now as ds (tot + a) = Inl (ValidationError msg))
        \<or> sumAmounts now as ds (tot + a) = Inl Panic"
      by (intro "3.IH") (auto simp: checked_add_def)
    with True show ?thesis by (auto simp: checked_add_def)
  next
    case False
    then show ?thesis by auto
  qed
qed simp_all

lemma sumAmounts_overflow:
  "length as = length ds \<Longrightarrow> list_all (\<lambda>a. 0 < a) as \<Longrightarrow> list_all (\<lambda>t. now < t) ds \<Longrightarrow>
   acc \<le> MAX_UINT256 \<Longrightarrow> MAX_UINT256 < acc + sum_list as \<Longrightarrow>
   sumAmounts now as ds acc = Inl Panic"
proof (induction now as ds acc rule: sumAmounts.induct)
  case (3 now a as d ds tot)
  show ?case
  proof (cases "tot + a \<le> MAX_UINT256")
    case True
    with "3.prems" have "sumAmounts now as ds (tot + a) = Inl Panic"
      by (intro "3.IH") (simp_all add: checked_add_def add.assoc)
    with True "3.prems" show ?thesis by (simp add: checked_add_def)
  next
    case False
    with "3.prems" show ?thesis by (simp add: checked_add_def)
  qed
qed simp_all

lemma sumAmounts_eq_Inr:
  "sumAmounts now as ds acc = Inr t \<Longrightarrow> t = acc + sum_list as"
proof (induction now as ds acc rule: sumAmounts.induct)
  case (3 now a as d ds tot)
  from "3.prems" have "sumAmounts now as ds (tot + a) = Inr t"
    by (auto simp: eq_Inr if_Inl_eq_Inr)
  moreover from "3.prems" have "0 < a \<and> now < d \<and> checked_add tot a = Inr (tot + a)"
    by (auto simp: eq_Inr if_Inl_eq_Inr)
  ultimately have "t = tot + a + sum_list as"
    by (intro "3.IH") simp_all
  then show ?case by simp
qed (simp_all add: if_Inl_eq_Inr)

lemma pushMilestones_ok:
  "length ds = length as \<Longrightarrow> length as = length ts \<Longrightarrow>
   pushMilestones ds as ts ms = Inr (ms @ pending_milestones ds as ts)"
  by (induction ds as ts ms rule: pushMilestones.induct)
     (simp_all add: pending_milestones_def)

lemma createProject_result:
  assumes "exec e (CreateProject ttl dh descs amounts deadlines) s = Inr (s', log)"
  shows "projectCounter s' = projectCounter s + 1
     \<and> projects s' (projectCounter s) = (projects s (projectCounter s))
           \<lparr>p_id := projectCounter s, client := msg_sender e, title := ttl,
            descriptionHash := dh, totalAmount := sum_list amounts, p_status := CREATED,
            p_createdAt := block_timestamp e, fundsDeposited := True\<rparr>
     \<and> sum_list amounts \<le> msg_value e
     \<and> transfers log = (if sum_list amounts < msg_value e
                         then [(msg_sender e, msg_value e - sum_list amounts)] else [])
     \<and> events log = [ProjectCreated (projectCounter s) (msg_sender e) (sum_list amounts),
                       FundsDeposited (projectCounter s) (sum_list amounts)]
     \<and> balance s' = balance s + sum_list amounts"
  using assms
  apply (simp add: createProject_def whenNotPaused_eq_Inr and_then_eq_Inr checked_add_eq_Inr
      if_Inl_eq_Inr Let_def)
  apply (elim exE conjE)
  apply (drule cond_transfer_eq_Inr)
  apply (drule sumAmounts_eq_Inr)
  apply (auto split: if_splits)
  done

lemma createProject_succeeds:
  assumes "\<not> paused s" "projectCounter s < MAX_UINT256"
    and "create_preconditions e descs amounts deadlines" "msg_value e \<le> MAX_UINT256"
    and "sum_list amounts < msg_value e \<longrightarrow> accepts e (msg_sender e)"
  shows "\<exists>s' log. exec e (CreateProject ttl dh descs amounts deadlines) s = Inr (s', log)"
proof -
  from assms(3) have pre: "descs \<noteq> []" "length descs = length amounts"
    "length amounts = length deadlines" "list_all (\<lambda>a. 0 < a) amounts"
    "list_all (\<lambda>t. block_timestamp e < t) deadlines" "sum_list amounts \<le> msg_value e"
    by (simp_all add: create_preconditions_def)
  from pre(6) assms(4) have "0 + sum_list amounts \<le> MAX_UINT256" by simp
  from sumAmounts_ok [OF pre(3) pre(4) pre(5) this]
  have sum: "sumAmounts (block_timestamp e) amounts deadlines 0 = Inr (sum_list amounts)"
    by simp
  note push = pushMilestones_ok [OF pre(2) pre(3)]
  from pre have ne: "amounts \<noteq> []" "deadlines \<noteq> []" by auto
  from assms(1,2,5) pre ne sum push show ?thesis
    by (auto simp: createProject_def whenNotPaused_def checked_add_def transfer_def Let_def)
qed

lemma createProject_refund_refused:
  assumes "\<not> paused s" "projectCounter s < MAX_UINT256"
    and "create_preconditions e descs amounts deadlines" "msg_value e \<le> MAX_UINT256"
    and "sum_list amounts < msg_value e" "\<not> accepts e (msg_sender e)"
  shows "exec e (CreateProject ttl dh descs amounts deadlines) s = Inl TransferFailed"
proof -
  from assms(3) have pre: "descs \<noteq> []" "length descs = length amounts"
    "length amounts = length deadlines" "list_all (\<lambda>a. 0 < a) amounts"
    "list_all (\<lambda>t. block_timestamp e < t) deadlines" "sum_list amounts \<le> msg_value e"
    by (simp_all add: create_preconditions_def)
  from pre(6) assms(4) have "0 + sum_list amounts \<le> MAX_UINT256" by simp
  from sumAmounts_ok [OF pre(3) pre(4) pre(5) this]
  have sum: "sumAmounts (block_timestamp e) amounts deadlines 0 = Inr (sum_list amounts)"
    by simp
  note push = pushMilestones_ok [OF pre(2) pre(3)]
  from pre have ne: "amounts \<noteq> []" "deadlines \<noteq> []" by auto
  from assms(1,2,5,6) pre ne sum push show ?thesis
    by (auto simp: createProject_def whenNotPaused_def checked_add_def transfer_def Let_def)
qed

lemma createProject_panics:
  assumes "\<not> paused s"
    and "descs \<noteq> []" "length descs = length amounts" "length amounts = length deadlines"
    and "list_all (\<lambda>a. 0 < a) amounts" "list_all (\<lambda>t. block_timestamp e < t) deadlines"
    and "MAX_UINT256 < sum_list amounts"
  shows "exec e (CreateProject ttl dh descs amounts deadlines) s = Inl Panic"
proof -
  from assms(7) have "MAX_UINT256 < 0 + sum_list amounts" by simp
  from sumAmounts_overflow [OF assms(4) assms(5) assms(6) _ this]
  have "sumAmounts (block_timestamp e) amounts deadlines 0 = Inl Panic"
    by simp
  moreover from assms(2,3,4) have "amounts \<noteq> []" "deadlines \<noteq> []" by auto
  ultimately show ?thesis
    using assms(1,2,3,4) by (simp add: createProject_def whenNotPaused_def)
qed

lemma createProject_rejects:
  assumes "\<not> paused s" "\<not> create_preconditions e descs amounts deadlines"
  shows "((\<exists>msg. exec e (CreateProject ttl dh descs amounts deadlines) s = Inl (ValidationError msg))
          \<or> exec e (CreateProject ttl dh descs amounts deadlines) s = Inl Panic)
     \<and> (sum_list amounts \<le> MAX_UINT256 \<longrightarrow>
          (\<exists>msg. exec e (CreateProject ttl dh descs amounts deadlines) s = Inl (ValidationError msg)))"
proof (cases "descs \<noteq> [] \<and> length descs = length amounts \<and> length amounts = length deadlines")
  case False
  with assms(1) show ?thesis
    by (auto simp: createProject_def whenNotPaused_def)
next
  case shape: True
  show ?thesis
  proof (cases "list_all (\<lambda>a. 0 < a) amounts \<and> list_all (\<lambda>t. block_timestamp e < t) deadlines")
    case False
    with shape sumAmounts_outcome [of amounts deadlines "block_timestamp e" 0]
      sumAmounts_invalid [of amounts deadlines "block_timestamp e" 0]
    have "(\<exists>msg. sumAmounts (block_timestamp e) amounts deadlines 0 = Inl (ValidationError msg))
        \<or> sumAmounts (block_timestamp e) amounts deadlines 0 = Inl Panic"
      "sum_list amounts \<le> MAX_UINT256 \<longrightarrow>
        (\<exists>msg. sumAmounts (block_timestamp e) amounts deadlines 0 = Inl (ValidationError msg))"
      by auto
    with assms(1) shape show ?thesis
      by (auto simp: createProject_def whenNotPaused_def)
  next
    case True
    with shape assms(2) have short: "msg_value e < sum_list amounts"
      by (simp add: create_preconditions_def)
    show ?thesis
    proof (cases "sum_list amounts \<le> MAX_UINT256")
      case False
      with createProject_panics [of s descs amounts deadlines e ttl dh] assms(1) shape True
      show ?thesis by simp
    next
      case fits: True
      with sumAmounts_ok [of amounts deadlines "block_timestamp e" 0] shape True
      have "sumAmounts (block_timestamp e) amounts deadlines 0 = Inr (sum_list amounts)"
        by simp
      with short assms(1) shape show ?thesis
        by (simp add: createProject_def whenNotPaused_def)
    qed
  qed
qed

lemma pending_milestones_amounts:
  "length ds = length as \<Longrightarrow> length as = length ts \<Longrightarrow>
   map amount (pending_milestones ds as ts) = as"
  by (induction ds as ts rule: list_induct3) (simp_all add: pending_milestones_def)

text \<open>
  C8, as the code has it. In a reachable state that is not paused, with a deposit that is
  a \<open>uint256\<close> and a project counter below its maximum: when the preconditions of the
  specification hold and the caller accepts the refund, if one is due, \<open>createProject\<close>
  succeeds; the new project has the next id, status CREATED, the caller as client, the
  sum of the amounts as total, and the funds-deposited flag set; its milestones are
  exactly the given ones, all PENDING, and their amounts add up to the total; the only
  transfer is the refund of the deposit above the total, made when it is positive; the
  contract keeps the total. When the preconditions hold and the caller refuses the
  refund that is due, the call reverts with TransferFailed. When a precondition is
  violated the call reverts and creates nothing; the revert is a ValidationError or the
  arithmetic Panic of the running total: a ValidationError whenever the sum of the
  amounts is itself a \<open>uint256\<close>, and the Panic when the arrays are well formed, every
  amount and deadline is valid, and the sum of the amounts is above \<open>2^256 - 1\<close>, so that
  only the deposit falls short.
\<close>

theorem createProject_spec:
  assumes "reachable s" "\<not> paused s" "projectCounter s < MAX_UINT256"
    and "msg_value e \<le> MAX_UINT256"
  shows "(create_preconditions e descs amounts deadlines
          \<and> (sum_list amounts < msg_value e \<longrightarrow> accepts e (msg_sender e)) \<longrightarrow>
          (\<exists>s' log. exec e (CreateProject ttl dh descs amounts deadlines) s = Inr (s', log)
             \<and> projectCounter s' = projectCounter s + 1
             \<and> p_status (projects s' (projectCounter s)) = CREATED
             \<and> client (projects s' (projectCounter s)) = msg_sender e
             \<and> totalAmount (projects s' (projectCounter s)) = sum_list amounts
             \<and> fundsDeposited (projects s' (projectCounter s))
             \<and> projectMilestones s' (projectCounter s)
                 = pending_milestones descs amounts deadlines
             \<and> sum_list (map amount (projectMilestones s' (projectCounter s)))
                 = totalAmount (projects s' (projectCounter s))
             \<and> transfers log = (if sum_list amounts < msg_value e
                                 then [(msg_sender e, msg_value e - sum_list amounts)] else [])
             \<and> balance s' = balance s + sum_list amounts))
     \<and> (create_preconditions e descs amounts deadlines
          \<and> sum_list amounts < msg_value e \<and> \<not> accepts e (msg_sender e) \<longrightarrow>
          exec e (CreateProject ttl dh descs amounts deadlines) s = Inl TransferFailed)
     \<and> (\<not> create_preconditions e descs amounts deadlines \<longrightarrow>
          ((\<exists>msg. exec e (CreateProject ttl dh descs amounts deadlines) s
                    = Inl (ValidationError msg))
           \<or> exec e (CreateProject ttl dh descs amounts deadlines) s = Inl Panic)
          \<and> (sum_list amounts \<le> MAX_UINT256 \<longrightarrow>
               (\<exists>msg. exec e (CreateProject ttl dh descs amounts deadlines) s
                        = Inl (ValidationError msg)))
          \<and> (descs \<noteq> [] \<and> length descs = length amounts
               \<and> length amounts = length deadlines
               \<and> list_all (\<lambda>a. 0 < a) amounts
               \<and> list_all (\<lambda>t. block_timestamp e < t) deadlines
               \<and> MAX_UINT256 < sum_list amounts \<longrightarrow>
               exec e (CreateProject ttl dh descs amounts deadlines) s = Inl Panic))"
proof (intro conjI impI)
  assume h: "create_preconditions e descs amounts deadlines
          \<and> (sum_list amounts < msg_value e \<longrightarrow> accepts e (msg_sender e))"
  with assms obtain s' log
    where ex: "exec e (CreateProject ttl dh descs amounts deadlines) s = Inr (s', log)"
    using createProject_succeeds [of s e descs amounts deadlines ttl dh] by blast
  note res = createProject_result [OF ex]
  from reachable_inv [OF assms(1)] have "projectMilestones s (projectCounter s) = []"
    by (simp add: inv_def)
  with createProject_milestones [OF ex]
  have ms: "projectMilestones s' (projectCounter s) = pending_milestones descs amounts deadlines"
    by simp
  from h have "map amount (pending_milestones descs amounts deadlines) = amounts"
    by (intro pending_milestones_amounts) (simp_all add: create_preconditions_def)
  with ms res have "sum_list (map amount (projectMilestones s' (projectCounter s)))
                 = totalAmount (projects s' (projectCounter s))"
    by simp
  with ex res ms
  show "\<exists>s' log. exec e (CreateProject ttl dh descs amounts deadlines) s = Inr (s', log)
             \<and> projectCounter s' = projectCounter s + 1
             \<and> p_status (projects s' (projectCounter s)) = CREATED
             \<and> client (projects s' (projectCounter s)) = msg_sender e
             \<and> totalAmount (projects s' (projectCounter s)) = sum_list amounts
             \<and> fundsDeposited (projects s' (projectCounter s))
             \<and> projectMilestones s' (projectCounter s)
                 = pending_milestones descs amounts deadlines
             \<and> sum_list (map amount (projectMilestones s' (projectCounter s)))
                 = totalAmount (projects s' (projectCounter s))
             \<and> transfers log = (if sum_list amounts < msg_value e
                                 then [(msg_sender e, msg_value e - sum_list amounts)] else [])
             \<and> balance s' = balance s + sum_list amounts"
    by (intro exI [where x = s'] exI [where x = log]) simp
next
  assume "create_preconditions e descs amounts deadlines
          \<and> sum_list amounts < msg_value e \<and> \<not> accepts e (msg_sender e)"
  with assms show "exec e (CreateProject ttl dh descs amounts deadlines) s = Inl TransferFailed"
    by (intro createProject_refund_refused) simp_all
next
  assume "\<not> create_preconditions e descs amounts deadlines"
  with createProject_rejects [OF assms(2) this]
  show "(\<exists>msg. exec e (CreateProject ttl dh descs amounts deadlines) s
                    = Inl (ValidationError msg))
           \<or> exec e (CreateProject ttl dh descs amounts deadlines) s = Inl Panic"
    by blast
next
  assume "\<not> create_preconditions e descs amounts deadlines"
    and "sum_list amounts \<le> MAX_UINT256"
  with createProject_rejects [OF assms(2), of e descs amounts deadlines]
  show "\<exists>msg. exec e (CreateProject ttl dh descs amounts deadlines) s
                        = Inl (ValidationError msg)"
    by blast
next
  assume "descs \<noteq> [] \<and> length descs = length amounts
               \<and> length amounts = length deadlines
               \<and> list_all (\<lambda>a. 0 < a) amounts
               \<and> list_all (\<lambda>t. block_timestamp e < t) deadlines
               \<and> MAX_UINT256 < sum_list amounts"
  with assms(2) show "exec e (CreateProject ttl dh descs amounts deadlines) s = Inl Panic"
    by (intro createProject_panics) simp_all
qed

theorem createProject_spec_witness:
  "(\<exists>s' log. exec (paying 2 0 150) (CreateProject ''Site'' ''Qm1'' [''Design''] [100] [1000])
                 (constructor 1) = Inr (s', log)
       \<and> projectCounter s' = 1 \<and> p_status (projects s' 0) = CREATED
       \<and> totalAmount (projects s' 0) = 100 \<and> fundsDeposited (projects s' 0)
       \<and> map m_status (projectMilestones s' 0) = [PENDING]
       \<and> transfers log = [(2, 50)] \<and> balance s' = 100)
   \<and> exec (refusing 2 (paying 2 0 150)) (CreateProject ''Site'' ''Qm1'' [''Design''] [100] [1000])
         (constructor 1) = Inl TransferFailed
   \<and> (\<exists>msg. exec (paying 2 0 50) (CreateProject ''Site'' ''Qm1'' [''Design''] [100] [1000])
                 (constructor 1) = Inl (ValidationError msg))
   \<and> (\<exists>msg. exec (paying 2 0 150) (CreateProject ''Site'' ''Qm1'' [''Design''] [0] [1000])
                 (constructor 1) = Inl (ValidationError msg))"
proof -
  have ctx: "reachable (constructor 1)" "\<not> paused (constructor 1)"
    "projectCounter (constructor 1) < MAX_UINT256"
    by (rule reachable.deployed) (simp_all add: constructor_def MAX_UINT256_def)
  have v: "msg_value (paying 2 0 150) \<le> MAX_UINT256" "msg_value (paying 2 0 50) \<le> MAX_UINT256"
    "msg_value (refusing 2 (paying 2 0 150)) \<le> MAX_UINT256"
    by (simp_all add: paying_def refusing_def MAX_UINT256_def)
  have pre: "create_preconditions (paying 2 0 150) [''Design''] [100] [1000]"
    "\<not> create_preconditions (paying 2 0 50) [''Design''] [100] [1000]"
    "\<not> create_preconditions (paying 2 0 150) [''Design''] [0] [1000]"
    "accepts (paying 2 0 150) (msg_sender (paying 2 0 150))"
    by (simp_all add: create_preconditions_def paying_def)
  have pre': "create_preconditions (refusing 2 (paying 2 0 150)) [''Design''] [100] [1000]
      \<and> sum_list [100] < msg_value (refusing 2 (paying 2 0 150))
      \<and> \<not> accepts (refusing 2 (paying 2 0 150)) (msg_sender (refusing 2 (paying 2 0 150)))"
    by (simp add: create_preconditions_def paying_def refusing_def)
  have c0: "projectCounter (constructor 1) = 0" "balance (constructor 1) = 0"
    by (simp_all add: constructor_def)
  from createProject_spec [OF ctx v(1), THEN conjunct1, rule_format,
      of "[''Design'']" "[100]" "[1000]" "''Site''" "''Qm1''"] pre
  obtain s' log where "exec (paying 2 0 150)
        (CreateProject ''Site'' ''Qm1'' [''Design''] [100] [1000]) (constructor 1) = Inr (s', log)"
    and "projectCounter s' = 1" "p_status (projects s' 0) = CREATED"
      "totalAmount (projects s' 0) = 100" "fundsDeposited (projects s' 0)"
      "projectMilestones s' 0 = pending_milestones [''Design''] [100] [1000]"
      "transfers log = [(2, 50)]" "balance s' = 100"
    unfolding c0 by (auto simp: paying_def)
  then have a: "\<exists>s' log. exec (paying 2 0 150) (CreateProject ''Site'' ''Qm1'' [''Design''] [100] [1000])
                 (constructor 1) = Inr (s', log)
       \<and> projectCounter s' = 1 \<and> p_status (projects s' 0) = CREATED
       \<and> totalAmount (projects s' 0) = 100 \<and> fundsDeposited (projects s' 0)
       \<and> map m_status (projectMilestones s' 0) = [PENDING]
       \<and> transfers log = [(2, 50)] \<and> balance s' = 100"
    by (intro exI [where x = s'] exI [where x = log]) (simp add: pending_milestones_def)
  from createProject_spec [OF ctx v(3), THEN conjunct2, THEN conjunct1, rule_format,
      of "[''Design'']" "[100]" "[1000]" "''Site''" "''Qm1''"] pre'
  have r: "exec (refusing 2 (paying 2 0 150))
        (CreateProject ''Site'' ''Qm1'' [''Design''] [100] [1000]) (constructor 1)
      = Inl TransferFailed"
    by blast
  from createProject_spec [OF ctx v(2), THEN conjunct2, THEN conjunct2, rule_format,
      of "[''Design'']" "[100]" "[1000]" "''Site''" "''Qm1''"] pre
  have b: "\<exists>msg. exec (paying 2 0 50) (CreateProject ''Site'' ''Qm1'' [''Design''] [100] [1000])
                 (constructor 1) = Inl (ValidationError msg)"
    by (simp add: MAX_UINT256_def)
  from createProject_spec [OF ctx v(1), THEN conjunct2, THEN conjunct2, rule_format,
      of "[''Design'']" "[0]" "[1000]" "''Site''" "''Qm1''"] pre
  have c: "\<exists>msg. exec (paying 2 0 150) (CreateProject ''Site'' ''Qm1'' [''Design''] [0] [1000])
                 (constructor 1) = Inl (ValidationError msg)"
    by (simp add: MAX_UINT256_def)
  from a r b c show ?thesis by blast
qed

text \<open>
  Two milestones of \<open>2^255\<close> wei each and a deposit of 1 wei, on a fresh deployment: the
  arrays are well formed and every amount and deadline is valid, so the violated
  precondition is the deposit; the call fails with the arithmetic Panic of the running
  total, not with a ValidationError. And with every precondition met, one milestone of
  100 wei and a deposit of 150 wei: the call fails with TransferFailed when the caller
  refuses the refund of 50 wei, and with the pause gate's UnavailableError after the
  owner has paused the contract.
\<close>

theorem sum_overflow_counterexample:
  "\<not> create_preconditions (paying 2 0 1) [''Design'', ''Build''] [2 ^ 255, 2 ^ 255] [1000, 1000]
   \<and> exec (paying 2 0 1)
         (CreateProject ''Site'' ''Qm1'' [''Design'', ''Build''] [2 ^ 255, 2 ^ 255] [1000, 1000])
         (constructor 1)
       = Inl Panic
   \<and> create_preconditions (refusing 2 (paying 2 0 150)) [''Design''] [100] [1000]
   \<and> exec (refusing 2 (paying 2 0 150))
         (CreateProject ''Site'' ''Qm1'' [''Design''] [100] [1000]) (constructor 1)
       = Inl TransferFailed
   \<and> create_preconditions (paying 2 1 150) [''Design''] [100] [1000]
   \<and> run_calls [(at 1 0, Pause),
                  (paying 2 1 150, CreateProject ''Site'' ''Qm1'' [''Design''] [100] [1000])]
         (constructor 1, [])
       = Inl (UnavailableError ''Pausable: paused'')"
  by (simp add: create_preconditions_def run_defs)

section \<open>Auto-approval\<close>

lemma release_announced:
  assumes "accepts e = accepts e'"
  shows "releaseMilestonePayment e pid mid (s, [Emitted ev])
         = announced ev (releaseMilestonePayment e' pid mid (s, []))"
proof -
  let ?m = "projectMilestones s pid ! mid"
  let ?fee = "amount ?m * platformFeePercent s div 100"
  show ?thesis
    by (cases "amount ?m * platformFeePercent s \<le> MAX_UINT256";
        cases "?fee \<le> amount ?m";
        cases "amount ?m - ?fee \<le> balance s";
        cases "accepts e' (freelancer (projects s pid))";
        cases "?fee \<le> balance s - (amount ?m - ?fee)";
        cases "accepts e' (owner s)")
       (simp_all add: releaseMilestonePayment_def announced_def assms checked_mul_def
          checked_div_def checked_sub_def transfer_def Let_def set_milestone_status_def
          set_project_status_def allMilestonesApproved_def)
qed

lemma release_succeeds:
  assumes "platformFeePercent s \<le> 100"
    and "amount (projectMilestones s pid ! mid) * platformFeePercent s \<le> MAX_UINT256"
    and "amount (projectMilestones s pid ! mid) \<le> balance s"
    and "accepts e (freelancer (projects s pid))" "accepts e (owner s)"
  shows "\<exists>r'. releaseMilestonePayment e pid mid (s, l) = Inr r'"
proof -
  let ?a = "amount (projectMilestones s pid ! mid)"
  from assms(1) have "?a * platformFeePercent s \<le> ?a * 100" by simp
  then have fee: "?a * platformFeePercent s div 100 \<le> ?a"
    by (metis div_le_mono nonzero_mult_div_cancel_right zero_neq_numeral)
  define f where "f = ?a * platformFeePercent s div 100"
  from fee assms(3) have ar: "f \<le> ?a" "\<not> balance s < ?a - f" "\<not> balance s + f - ?a < f"
    "\<not> balance s - (?a - f) < f"
    by (simp_all add: f_def)
  with assms show ?thesis
    by (simp add: releaseMilestonePayment_def checked_mul_def checked_div_def checked_sub_def
          transfer_def Let_def set_milestone_status_def f_def [symmetric])
qed


lemma release_refused:
  assumes "platformFeePercent s \<le> 100"
    and "amount (projectMilestones s pid ! mid) * platformFeePercent s \<le> MAX_UINT256"
    and "\<not> (amount (projectMilestones s pid ! mid) \<le> balance s
            \<and> accepts e (freelancer (projects s pid)) \<and> accepts e (owner s))"
  shows "releaseMilestonePayment e pid mid (s, l) = Inl TransferFailed"
proof -
  let ?a = "amount (projectMilestones s pid ! mid)"
  from assms(1) have "?a * platformFeePercent s \<le> ?a * 100" by simp
  then have fee: "?a * platformFeePercent s div 100 \<le> ?a"
    by (metis div_le_mono nonzero_mult_div_cancel_right zero_neq_numeral)
  define f where "f = ?a * platformFeePercent s div 100"
  from fee have ar: "f \<le> ?a" "\<not> balance s < ?a - f \<Longrightarrow> balance s < ?a \<Longrightarrow> balance s - (?a - f) < f"
    by (simp_all add: f_def)
  with assms(2,3) show ?thesis
    by (cases "balance s < ?a - f"; cases "accepts e (freelancer (projects s pid))";
        cases "accepts e (owner s)"; cases "balance s < ?a")
       (simp_all add: releaseMilestonePayment_def checked_mul_def checked_div_def
          checked_sub_def transfer_def Let_def set_milestone_status_def f_def [symmetric])
qed

lemma release_overflow:
  assumes "MAX_UINT256 < amount (projectMilestones s pid ! mid) * platformFeePercent s"
  shows "releaseMilestonePayment e pid mid (s, l) = Inl Panic"
  using assms
  by (simp add: releaseMilestonePayment_def checked_mul_def Let_def set_milestone_status_def)

text \<open>
  C7, as the code has it. In a reachable state, for an existing milestone of an existing
  project, while the contract is not paused, and with any caller that sends no value:
  \<open>autoApproveMilestone\<close> reverts with a StateError when the project is not ACTIVE or
  the milestone is not SUBMITTED, and with a TimeoutError while the time is before the
  submission time plus seven days (with a Panic if that sum is not a \<open>uint256\<close>). From
  that instant on it does exactly what \<open>approveMilestone\<close> does for the client, except
  that its log starts with the MilestoneAutoApproved event: the same storage, the same
  payments, the same remaining events, or the same revert. It then succeeds exactly
  when the release can be paid: the contract holds the milestone amount, the fee product
  fits a \<open>uint256\<close>, and the freelancer and the owner accept their transfers. When the
  fee product fits and the release cannot be paid it reverts with TransferFailed, and
  when the fee product does not fit it reverts with a Panic.
\<close>

theorem autoApprove_as_manual:
  assumes "reachable s" "pid < projectCounter s" "mid < length (projectMilestones s pid)"
    and "\<not> paused s" and "msg_value e = 0"
  shows "(p_status (projects s pid) \<noteq> ACTIVE \<longrightarrow>
           exec e (AutoApproveMilestone pid mid) s = Inl (StateError ''Project not active''))
     \<and> (p_status (projects s pid) = ACTIVE
          \<and> m_status (projectMilestones s pid ! mid) \<noteq> SUBMITTED \<longrightarrow>
           exec e (AutoApproveMilestone pid mid) s = Inl (StateError ''Milestone not submitted''))
     \<and> (p_status (projects s pid) = ACTIVE
          \<and> m_status (projectMilestones s pid ! mid) = SUBMITTED
          \<and> MAX_UINT256 < submittedAt (projectMilestones s pid ! mid) + AUTO_APPROVE_TIMEOUT \<longrightarrow>
           exec e (AutoApproveMilestone pid mid) s = Inl Panic)
     \<and> (p_status (projects s pid) = ACTIVE
          \<and> m_status (projectMilestones s pid ! mid) = SUBMITTED
          \<and> submittedAt (projectMilestones s pid ! mid) + AUTO_APPROVE_TIMEOUT \<le> MAX_UINT256
          \<and> block_timestamp e < submittedAt (projectMilestones s pid ! mid) + AUTO_APPROVE_TIMEOUT \<longrightarrow>
           exec e (AutoApproveMilestone pid mid) s
             = Inl (TimeoutError ''Auto-approval timeout not reached''))
     \<and> (p_status (projects s pid) = ACTIVE
          \<and> m_status (projectMilestones s pid ! mid) = SUBMITTED
          \<and> submittedAt (projectMilestones s pid ! mid) + AUTO_APPROVE_TIMEOUT \<le> MAX_UINT256
          \<and> submittedAt (projectMilestones s pid ! mid) + AUTO_APPROVE_TIMEOUT \<le> block_timestamp e \<longrightarrow>
           exec e (AutoApproveMilestone pid mid) s
             = announced (MilestoneAutoApproved pid mid)
                 (exec (e\<lparr>msg_sender := client (projects s pid)\<rparr>) (ApproveMilestone pid mid) s)
           \<and> (amount (projectMilestones s pid ! mid) \<le> balance s
               \<and> amount (projectMilestones s pid ! mid) * platformFeePercent s \<le> MAX_UINT256
               \<and> accepts e (freelancer (projects s pid)) \<and> accepts e (owner s) \<longrightarrow>
               (\<exists>s' log. exec e (AutoApproveMilestone pid mid) s = Inr (s', log)))
           \<and> (amount (projectMilestones s pid ! mid) * platformFeePercent s \<le> MAX_UINT256
               \<and> \<not> (amount (projectMilestones s pid ! mid) \<le> balance s
                      \<and> accepts e (freelancer (projects s pid)) \<and> accepts e (owner s)) \<longrightarrow>
               exec e (AutoApproveMilestone pid mid) s = Inl TransferFailed)
           \<and> (MAX_UINT256 < amount (projectMilestones s pid ! mid) * platformFeePercent s \<longrightarrow>
               exec e (AutoApproveMilestone pid mid) s = Inl Panic))"
proof -
  from reachable_inv [OF assms(1)] have ne: "\<not> entered s" and fee: "platformFeePercent s \<le> 10"
    by (simp_all add: inv_def)
  have c1: "p_status (projects s pid) \<noteq> ACTIVE \<longrightarrow>
           exec e (AutoApproveMilestone pid mid) s = Inl (StateError ''Project not active'')"
    using assms ne
    by (simp add: autoApproveMilestone_def projectExists_def nonReentrant_def whenNotPaused_def)
  have c2: "p_status (projects s pid) = ACTIVE
          \<and> m_status (projectMilestones s pid ! mid) \<noteq> SUBMITTED \<longrightarrow>
           exec e (AutoApproveMilestone pid mid) s = Inl (StateError ''Milestone not submitted'')"
    using assms ne
    by (simp add: autoApproveMilestone_def projectExists_def nonReentrant_def whenNotPaused_def)
  have c3: "p_status (projects s pid) = ACTIVE
          \<and> m_status (projectMilestones s pid ! mid) = SUBMITTED
          \<and> MAX_UINT256 < submittedAt (projectMilestones s pid ! mid) + AUTO_APPROVE_TIMEOUT \<longrightarrow>
           exec e (AutoApproveMilestone pid mid) s = Inl Panic"
    using assms ne
    by (simp add: autoApproveMilestone_def projectExists_def nonReentrant_def whenNotPaused_def
          checked_add_def)
  have c4: "p_status (projects s pid) = ACTIVE
          \<and> m_status (projectMilestones s pid ! mid) = SUBMITTED
          \<and> submittedAt (projectMilestones s pid ! mid) + AUTO_APPROVE_TIMEOUT \<le> MAX_UINT256
          \<and> block_timestamp e < submittedAt (projectMilestones s pid ! mid) + AUTO_APPROVE_TIMEOUT \<longrightarrow>
           exec e (AutoApproveMilestone pid mid) s
             = Inl (TimeoutError ''Auto-approval timeout not reached'')"
    using assms ne
    by (simp add: autoApproveMilestone_def projectExists_def nonReentrant_def whenNotPaused_def
          checked_add_def)
  have c5: "exec e (AutoApproveMilestone pid mid) s
             = announced (MilestoneAutoApproved pid mid)
                 (exec (e\<lparr>msg_sender := client (projects s pid)\<rparr>) (ApproveMilestone pid mid) s)
           \<and> (amount (projectMilestones s pid ! mid) \<le> balance s
               \<and> amount (projectMilestones s pid ! mid) * platformFeePercent s \<le> MAX_UINT256
               \<and> accepts e (freelancer (projects s pid)) \<and> accepts e (owner s) \<longrightarrow>
               (\<exists>s' log. exec e (AutoApproveMilestone pid mid) s = Inr (s', log)))
           \<and> (amount (projectMilestones s pid ! mid) * platformFeePercent s \<le> MAX_UINT256
               \<and> \<not> (amount (projectMilestones s pid ! mid) \<le> balance s
                      \<and> accepts e (freelancer (projects s pid)) \<and> accepts e (owner s)) \<longrightarrow>
               exec e (AutoApproveMilestone pid mid) s = Inl TransferFailed)
           \<and> (MAX_UINT256 < amount (projectMilestones s pid ! mid) * platformFeePercent s \<longrightarrow>
               exec e (AutoApproveMilestone pid mid) s = Inl Panic)"
    if h: "p_status (projects s pid) = ACTIVE
          \<and> m_status (projectMilestones s pid ! mid) = SUBMITTED
          \<and> submittedAt (projectMilestones s pid ! mid) + AUTO_APPROVE_TIMEOUT \<le> MAX_UINT256
          \<and> submittedAt (projectMilestones s pid ! mid) + AUTO_APPROVE_TIMEOUT \<le> block_timestamp e"
  proof -
    let ?e' = "e\<lparr>msg_sender := client (projects s pid)\<rparr>"
    let ?ev = "MilestoneAutoApproved pid mid"
    let ?s1 = "s\<lparr>entered := True\<rparr>"
    have auto_eq: "exec e (AutoApproveMilestone pid mid) s =
        and_then (releaseMilestonePayment e pid mid (?s1, [Emitted ?ev]))
          (\<lambda>r'. Inr (store (\<lambda>s. s\<lparr>entered := False\<rparr>) r'))"
      using assms ne h
      by (simp add: autoApproveMilestone_def projectExists_def nonReentrant_def
            whenNotPaused_def checked_add_def)
    have man_eq: "exec ?e' (ApproveMilestone pid mid) s =
        and_then (releaseMilestonePayment ?e' pid mid (?s1, []))
          (\<lambda>r'. Inr (store (\<lambda>s. s\<lparr>entered := False\<rparr>) r'))"
      using assms ne h
      by (simp add: approveMilestone_def projectExists_def onlyClient_def nonReentrant_def
            whenNotPaused_def)
    have rel: "releaseMilestonePayment e pid mid (?s1, [Emitted ?ev])
         = announced ?ev (releaseMilestonePayment ?e' pid mid (?s1, []))"
      by (rule release_announced) simp
    have eq: "exec e (AutoApproveMilestone pid mid) s
             = announced ?ev (exec ?e' (ApproveMilestone pid mid) s)"
      unfolding auto_eq man_eq rel
      by (cases "releaseMilestonePayment ?e' pid mid (?s1, [])")
         (simp_all add: announced_def store_def)
    have ok: "\<exists>s' log. exec e (AutoApproveMilestone pid mid) s = Inr (s', log)"
      if p: "amount (projectMilestones s pid ! mid) \<le> balance s
               \<and> amount (projectMilestones s pid ! mid) * platformFeePercent s \<le> MAX_UINT256
               \<and> accepts e (freelancer (projects s pid)) \<and> accepts e (owner s)"
    proof -
      from p fee have "\<exists>r'. releaseMilestonePayment e pid mid (?s1, [Emitted ?ev]) = Inr r'"
        by (intro release_succeeds) simp_all
      then show ?thesis
        unfolding auto_eq by (auto simp: store_def)
    qed
    have refused: "exec e (AutoApproveMilestone pid mid) s = Inl TransferFailed"
      if p: "amount (projectMilestones s pid ! mid) * platformFeePercent s \<le> MAX_UINT256
               \<and> \<not> (amount (projectMilestones s pid ! mid) \<le> balance s
                      \<and> accepts e (freelancer (projects s pid)) \<and> accepts e (owner s))"
    proof -
      from p fee have "releaseMilestonePayment e pid mid (?s1, [Emitted ?ev]) = Inl TransferFailed"
        by (intro release_refused) simp_all
      then show ?thesis
        unfolding auto_eq by simp
    qed
    have overflow: "exec e (AutoApproveMilestone pid mid) s = Inl Panic"
      if p: "MAX_UINT256 < amount (projectMilestones s pid ! mid) * platformFeePercent s"
    proof -
      from p have "releaseMilestonePayment e pid mid (?s1, [Emitted ?ev]) = Inl Panic"
        by (intro release_overflow) simp_all
      then show ?thesis
        unfolding auto_eq by simp
    qed
    from eq ok refused overflow show ?thesis by blast
  qed
  from c1 c2 c3 c4 c5 show ?thesis by blast
qed

theorem autoApprove_as_manual_witness:
  "\<exists>r s' log. run_calls submitted_script (constructor 1, []) = Inr r
     \<and> exec (at 9 604809) (AutoApproveMilestone 0 0) (fst r)
         = Inl (TimeoutError ''Auto-approval timeout not reached'')
     \<and> exec (at 9 604810) (AutoApproveMilestone 0 0) (fst r) = Inr (s', log)
     \<and> exec (at 9 604810) (AutoApproveMilestone 0 0) (fst r)
         = announced (MilestoneAutoApproved 0 0) (exec (at 2 604810) (ApproveMilestone 0 0) (fst r))
     \<and> transfers log = [(3, 98), (1, 2)]
     \<and> exec (refusing 3 (at 9 604810)) (AutoApproveMilestone 0 0) (fst r) = Inl TransferFailed"
proof -
  have "\<exists>r. run_calls submitted_script (constructor 1, []) = Inr r"
    by (simp add: run_defs)
  then obtain r where r: "run_calls submitted_script (constructor 1, []) = Inr r"
    by blast
  then have reach: "reachable (fst r)"
    by (rule run_calls_reachable) (simp add: reachable.deployed)
  from r have vals: "projectCounter (fst r) = 1" "length (projectMilestones (fst r) 0) = 1"
    "\<not> paused (fst r)" "submittedAt (projectMilestones (fst r) 0 ! 0) = 10"
    "p_status (projects (fst r) 0) = ACTIVE" "m_status (projectMilestones (fst r) 0 ! 0) = SUBMITTED"
    "amount (projectMilestones (fst r) 0 ! 0) = 100" "balance (fst r) = 100"
    "platformFeePercent (fst r) = 2" "client (projects (fst r) 0) = 2"
    "freelancer (projects (fst r) 0) = 3" "owner (fst r) = 1"
    by (auto simp: run_defs)
  have ctx: "0 < projectCounter (fst r)" "0 < length (projectMilestones (fst r) 0)"
    using vals by simp_all
  have val: "msg_value (at 9 604809) = 0" "msg_value (at 9 604810) = 0"
    "msg_value (refusing 3 (at 9 604810)) = 0"
    by (simp_all add: at_def refusing_def)
  note inst = autoApprove_as_manual [OF reach ctx(1) ctx(2) vals(3)]
  from inst [OF val(1)] vals
  have a: "exec (at 9 604809) (AutoApproveMilestone 0 0) (fst r)
         = Inl (TimeoutError ''Auto-approval timeout not reached'')"
    by (simp add: at_def AUTO_APPROVE_TIMEOUT_def MAX_UINT256_def)
  have hyp: "p_status (projects (fst r) 0) = ACTIVE
      \<and> m_status (projectMilestones (fst r) 0 ! 0) = SUBMITTED
      \<and> submittedAt (projectMilestones (fst r) 0 ! 0) + AUTO_APPROVE_TIMEOUT \<le> MAX_UINT256
      \<and> submittedAt (projectMilestones (fst r) 0 ! 0) + AUTO_APPROVE_TIMEOUT
          \<le> block_timestamp (at 9 604810)"
    by (simp add: vals at_def AUTO_APPROVE_TIMEOUT_def MAX_UINT256_def)
  have hyp': "p_status (projects (fst r) 0) = ACTIVE
      \<and> m_status (projectMilestones (fst r) 0 ! 0) = SUBMITTED
      \<and> submittedAt (projectMilestones (fst r) 0 ! 0) + AUTO_APPROVE_TIMEOUT \<le> MAX_UINT256
      \<and> submittedAt (projectMilestones (fst r) 0 ! 0) + AUTO_APPROVE_TIMEOUT
          \<le> block_timestamp (refusing 3 (at 9 604810))"
    by (simp add: vals at_def refusing_def AUTO_APPROVE_TIMEOUT_def MAX_UINT256_def)
  have pay: "amount (projectMilestones (fst r) 0 ! 0) \<le> balance (fst r)
      \<and> amount (projectMilestones (fst r) 0 ! 0) * platformFeePercent (fst r) \<le> MAX_UINT256
      \<and> accepts (at 9 604810) (freelancer (projects (fst r) 0))
      \<and> accepts (at 9 604810) (owner (fst r))"
    by (simp add: vals at_def MAX_UINT256_def)
  have nopay: "amount (projectMilestones (fst r) 0 ! 0) * platformFeePercent (fst r) \<le> MAX_UINT256
      \<and> \<not> (amount (projectMilestones (fst r) 0 ! 0) \<le> balance (fst r)
             \<and> accepts (refusing 3 (at 9 604810)) (freelancer (projects (fst r) 0))
             \<and> accepts (refusing 3 (at 9 604810)) (owner (fst r)))"
    by (simp add: vals at_def refusing_def MAX_UINT256_def)
  have e': "(at 9 604810)\<lparr>msg_sender := client (projects (fst r) 0)\<rparr> = at 2 604810"
    by (simp add: vals at_def)
  from inst [OF val(2)] hyp pay
  have both: "exec (at 9 604810) (AutoApproveMilestone 0 0) (fst r)
         = announced (MilestoneAutoApproved 0 0)
             (exec ((at 9 604810)\<lparr>msg_sender := client (projects (fst r) 0)\<rparr>)
                (ApproveMilestone 0 0) (fst r))
       \<and> (\<exists>s' log. exec (at 9 604810) (AutoApproveMilestone 0 0) (fst r) = Inr (s', log))"
    by blast
  from both have b: "exec (at 9 604810) (AutoApproveMilestone 0 0) (fst r)
         = announced (MilestoneAutoApproved 0 0) (exec (at 2 604810) (ApproveMilestone 0 0) (fst r))"
    unfolding e' by (rule conjunct1)
  from both obtain s' log where c: "exec (at 9 604810) (AutoApproveMilestone 0 0) (fst r) = Inr (s', log)"
    by blast
  from inst [OF val(3)] hyp' nopay
  have d: "exec (refusing 3 (at 9 604810)) (AutoApproveMilestone 0 0) (fst r) = Inl TransferFailed"
    by blast
  from approval_transfers [OF disjI2 [OF refl] c] vals
  have "transfers log = [(3, 98), (1, 2)]"
    by simp
  with r a b c d show ?thesis by blast
qed

text \<open>
  The scenario's milestone, submitted at time 10, with the project ACTIVE, is
  auto-approved at time 604810, seven days later. With a freelancer that refuses the
  payment the call fails with TransferFailed; after the owner has paused the contract
  it fails with the pause gate's UnavailableError; and sent 5 wei it is refused as not
  payable.
\<close>

theorem refused_autoApprove_counterexample:
  "observe (project_status 0) submitted_script 1 = Inr ACTIVE
   \<and> observe (milestone_status 0 0) submitted_script 1 = Inr SUBMITTED
   \<and> observe (milestone_submittedAt 0 0) submitted_script 1 = Inr 10
   \<and> 10 + AUTO_APPROVE_TIMEOUT \<le> 604810
   \<and> run_calls (submitted_script @ [(refusing 3 (at 9 604810), AutoApproveMilestone 0 0)])
         (constructor 1, [])
       = Inl TransferFailed
   \<and> run_calls (submitted_script @ [(at 1 20, Pause), (at 9 604810, AutoApproveMilestone 0 0)])
         (constructor 1, [])
       = Inl (UnavailableError ''Pausable: paused'')
   \<and> run_calls (submitted_script @ [(paying 9 604810 5, AutoApproveMilestone 0 0)])
         (constructor 1, [])
       = Inl NonPayable"
  by (simp add: observe_def project_status_def milestone_status_def milestone_submittedAt_def
        run_defs)

section \<open>Transfers and the re-entrancy lock\<close>

lemma entered_refuses_payout:
  assumes "entered t"
  shows "refuses_payout t"
  unfolding refuses_payout_def
proof (intro allI impI)
  fix e c s' log
  assume h: "pays_out c \<and> exec e c t = Inr (s', log)"
  show "transfers log = []"
  proof (cases c)
    case (ApproveMilestone pid mid)
    with h assms show ?thesis
      by (simp add: approveMilestone_def projectExists_eq_Inr onlyClient_eq_Inr
            nonReentrant_eq_Inr)
  next
    case (AutoApproveMilestone pid mid)
    with h assms show ?thesis
      by (simp add: autoApproveMilestone_def projectExists_eq_Inr nonReentrant_eq_Inr)
  next
    case (CancelProject pid)
    with h assms show ?thesis
      by (simp add: cancelProject_def projectExists_eq_Inr onlyClient_eq_Inr
            nonReentrant_eq_Inr)
  next
    case (VoteOnDispute did pct)
    with h have ex: "exec e (VoteOnDispute did pct) t = Inr (s', log)" by simp
    show ?thesis
    proof (cases "REQUIRED_ADMIN_VOTES \<le> voteCount (disputes t did) + 1")
      case True
      from voteOnDispute_quorum [OF ex True] assms show ?thesis
        by (simp add: executeDisputeResolution_def nonReentrant_eq_Inr)
    next
      case False
      from voteOnDispute_recorded [OF ex False] show ?thesis by simp
    qed
  qed (use h in simp_all)
qed

lemma release_snapshots:
  assumes "releaseMilestonePayment e pid mid (s, l) = Inr (s', l')"
    and "mid < length (projectMilestones s pid)"
  shows "\<exists>t1 t2. snapshots l' = snapshots l @ [t1, t2]
     \<and> entered t1 = entered s \<and> entered t2 = entered s
     \<and> projects t1 = projects s \<and> projects t2 = projects s
     \<and> m_status (projectMilestones t1 pid ! mid) = APPROVED
     \<and> m_status (projectMilestones t2 pid ! mid) = APPROVED"
  using assms
  apply (simp add: releaseMilestonePayment_def and_then_eq_Inr checked_div_eq_Inr
      checked_mul_eq_Inr checked_sub_eq_Inr transfer_eq_Inr Let_def)
  apply (elim exE conjE)
  apply (auto simp: set_milestone_status_def set_project_status_def split: if_splits)
  done

lemma resolution_snapshots:
  assumes "executeDisputeResolution e did (s, l) = Inr (s', l')"
  shows "\<exists>ts. snapshots l' = snapshots l @ ts \<and> list_all entered ts"
  using assms
  apply (simp add: executeDisputeResolution_def nonReentrant_eq_Inr and_then_eq_Inr
      checked_div_eq_Inr checked_mul_eq_Inr checked_sub_eq_Inr if_Inl_eq_Inr Let_def
      split_paired_Ex)
  apply (elim exE conjE)
  apply (drule cond_transfer_eq_Inr)+
  apply (auto split: if_splits)
  done

lemma resolution_snapshots_unresolved:
  assumes "executeDisputeResolution e did (s, l) = Inr (s', l')"
  shows "\<exists>ts. snapshots l' = snapshots l @ ts
     \<and> list_all (\<lambda>t. \<not> isResolved (disputes t did) \<and> projects t = projects s
                    \<and> projectMilestones t = projectMilestones s) ts"
  using assms
  apply (simp add: executeDisputeResolution_def nonReentrant_eq_Inr and_then_eq_Inr
      checked_div_eq_Inr checked_mul_eq_Inr checked_sub_eq_Inr if_Inl_eq_Inr Let_def
      split_paired_Ex)
  apply (elim exE conjE)
  apply (drule cond_transfer_eq_Inr)+
  apply (auto split: if_splits)
  done

lemma vote_snapshots_unresolved:
  assumes "exec e (VoteOnDispute did pct) s = Inr (s', log)"
  shows "list_all (\<lambda>t. \<not> isResolved (disputes t did) \<and> projects t = projects s
                    \<and> projectMilestones t = projectMilestones s) (snapshots log)"
proof (cases "REQUIRED_ADMIN_VOTES \<le> voteCount (disputes s did) + 1")
  case True
  from resolution_snapshots_unresolved [OF voteOnDispute_quorum [OF assms True]]
  show ?thesis by auto
next
  case False
  from voteOnDispute_recorded [OF assms False] show ?thesis by simp
qed

lemma cancel_snapshots:
  assumes "exec e (CancelProject pid) s = Inr (s', log)"
  shows "list_all entered (snapshots log)"
  using assms
  by (auto simp: cancelProject_def eq_Inr if_Inl_eq_Inr Let_def set_project_status_def)


lemma payout_snapshots:
  assumes "exec e c s = Inr (s', log)" "pays_out c"
  shows "list_all entered (snapshots log)"
proof (cases c)
  case (ApproveMilestone pid mid)
  with assms(1) obtain s1 l1 where "releaseMilestonePayment e pid mid (s\<lparr>entered := True\<rparr>, []) = Inr (s1, l1)"
    and "log = l1" "mid < length (projectMilestones s pid)"
    by (auto simp: approveMilestone_def eq_Inr if_Inl_eq_Inr)
  with release_snapshots [OF this(1)] show ?thesis by auto
next
  case (AutoApproveMilestone pid mid)
  with assms(1) obtain s1 l1 where "releaseMilestonePayment e pid mid
        (s\<lparr>entered := True\<rparr>, [Emitted (MilestoneAutoApproved pid mid)]) = Inr (s1, l1)"
    and "log = l1" "mid < length (projectMilestones s pid)"
    by (auto simp: autoApproveMilestone_def eq_Inr if_Inl_eq_Inr)
  with release_snapshots [OF this(1)] show ?thesis by auto
next
  case (VoteOnDispute did pct)
  with assms(1) have ex: "exec e (VoteOnDispute did pct) s = Inr (s', log)" by simp
  show ?thesis
  proof (cases "REQUIRED_ADMIN_VOTES \<le> voteCount (disputes s did) + 1")
    case True
    from resolution_snapshots [OF voteOnDispute_quorum [OF ex True]] show ?thesis by auto
  next
    case False
    from voteOnDispute_recorded [OF ex False] show ?thesis by simp
  qed
next
  case (CancelProject pid)
  with assms(1) show ?thesis by (auto intro: cancel_snapshots)
qed (use assms(2) in simp_all)

lemma approval_snapshots:
  assumes "exec e c s = Inr (s', log)"
    and "c = ApproveMilestone pid mid \<or> c = AutoApproveMilestone pid mid"
  shows "list_all (\<lambda>t. m_status (projectMilestones t pid ! mid) = APPROVED
                    \<and> projects t = projects s) (snapshots log)"
proof -
  from assms obtain l s1 where "releaseMilestonePayment e pid mid (s\<lparr>entered := True\<rparr>, l) = Inr (s1, log)"
    and "snapshots l = []" "mid < length (projectMilestones s pid)"
    by (auto simp: approveMilestone_def autoApproveMilestone_def eq_Inr if_Inl_eq_Inr)
  with release_snapshots [OF this(1)] show ?thesis by auto
qed

lemma list_all_mono':
  "list_all P xs \<Longrightarrow> (\<And>x. P x \<Longrightarrow> Q x) \<Longrightarrow> list_all Q xs"
  by (induction xs) simp_all

text \<open>
  C1, as the code has it. Every transfer of an approval, an auto-approval, a dispute
  resolution or a cancellation is made while the re-entrancy lock is held: in the
  storage that the recipient could see, none of these four operations can pay out
  again, whoever calls it. In an approval and an auto-approval the milestone is already
  APPROVED at each transfer, while the project record is still the one the call found:
  COMPLETED is written after the payments. In a dispute resolution the dispute is
  still unresolved at each transfer, and the projects and milestones are the ones the
  call found: the resolved flag and both statuses are written after the payments.
\<close>

theorem transfers_under_lock:
  assumes "exec e c s = Inr (s', log)" and "pays_out c"
  shows "list_all (\<lambda>t. entered t \<and> refuses_payout t) (snapshots log)
     \<and> (c = ApproveMilestone pid mid \<or> c = AutoApproveMilestone pid mid \<longrightarrow>
          list_all (\<lambda>t. m_status (projectMilestones t pid ! mid) = APPROVED
                         \<and> projects t = projects s) (snapshots log))
     \<and> (c = VoteOnDispute did pct \<longrightarrow>
          list_all (\<lambda>t. \<not> isResolved (disputes t did) \<and> projects t = projects s
                         \<and> projectMilestones t = projectMilestones s) (snapshots log))"
  using payout_snapshots [OF assms] approval_snapshots [OF assms(1), of pid mid]
    vote_snapshots_unresolved [of e did pct s s' log] assms(1)
  by (auto intro: list_all_mono' entered_refuses_payout)

lemma snapshots_transfers_length: "length (snapshots log) = length (transfers log)"
  by (induction log rule: snapshots.induct) simp_all

theorem transfers_under_lock_witness:
  "\<exists>r s' log. run_calls submitted_script (constructor 1, []) = Inr r
     \<and> exec (at 2 20) (ApproveMilestone 0 0) (fst r) = Inr (s', log)
     \<and> length (snapshots log) = 2
     \<and> list_all (\<lambda>t. entered t \<and> refuses_payout t) (snapshots log)
     \<and> list_all (\<lambda>t. m_status (projectMilestones t 0 ! 0) = APPROVED
                    \<and> projects t = projects (fst r)) (snapshots log)"
proof -
  have "\<exists>r s' log. run_calls submitted_script (constructor 1, []) = Inr r
     \<and> exec (at 2 20) (ApproveMilestone 0 0) (fst r) = Inr (s', log)
     \<and> length (transfers log) = 2"
    by (simp add: run_defs)
  then obtain r s' log where r: "run_calls submitted_script (constructor 1, []) = Inr r"
    and ex: "exec (at 2 20) (ApproveMilestone 0 0) (fst r) = Inr (s', log)"
    and len: "length (snapshots log) = 2"
    unfolding snapshots_transfers_length by blast
  from transfers_under_lock [OF ex, where pid = 0 and mid = 0]
  have "list_all (\<lambda>t. entered t \<and> refuses_payout t) (snapshots log)
     \<and> list_all (\<lambda>t. m_status (projectMilestones t 0 ! 0) = APPROVED
                    \<and> projects t = projects (fst r)) (snapshots log)"
    by simp
  with r ex len show ?thesis by blast
qed

text \<open>
  In the scenario, the two transfers of the dispute resolution are made while the
  dispute is still recorded as unresolved and its milestone as DISPUTED; the flag is set
  afterwards. The two transfers of the approval are made while the project is still
  ACTIVE; COMPLETED is written afterwards.
\<close>

theorem writes_after_transfer_counterexample:
  "observe_log (seen (resolved_flag 0)) resolved_script 1 = Inr [False, False]
   \<and> observe_log (seen (milestone_status 0 0)) resolved_script 1 = Inr [M_DISPUTED, M_DISPUTED]
   \<and> observe_log (seen (project_status 0)) resolved_script 1 = Inr [DISPUTED, DISPUTED]
   \<and> observe (resolved_flag 0) resolved_script 1 = Inr True
   \<and> observe (milestone_status 0 0) resolved_script 1 = Inr APPROVED
   \<and> observe (project_status 0) resolved_script 1 = Inr ACTIVE
   \<and> observe_log (seen (project_status 0)) approved_script 1 = Inr [ACTIVE, ACTIVE]
   \<and> observe (project_status 0) approved_script 1 = Inr COMPLETED"
  by (simp add: observe_def observe_log_def seen_def resolved_flag_def milestone_status_def
        project_status_def resolved_script_def approved_script_def run_defs Suc_Suc_0_eq_2)

end
